theory Spec2Isabelle
  imports Main "HOL-Library.Word"
begin

section \<open>Go strings and the library functions called by main\<close>

text \<open>
  A Go string is a sequence of bytes, so it is a \<^typ>\<open>string\<close> (a list of 8-bit
  \<^typ>\<open>char\<close>s). The functions of this section are the parts of the packages
  \<^verbatim>\<open>strings\<close> and \<^verbatim>\<open>strconv\<close> that main.go calls, at the arguments it
  calls them with: the separators \<^verbatim>\<open>":"\<close>, \<^verbatim>\<open>"="\<close> and \<^verbatim>\<open>"/"\<close> are one byte long,
  so a separator is a \<^typ>\<open>char\<close>.
\<close>

definition Contains :: "string \<Rightarrow> char \<Rightarrow> bool" where
  \<comment> \<open>\<^verbatim>\<open>strings.Contains(s, sep)\<close> for a one-byte \<^verbatim>\<open>sep\<close>.\<close>
  "Contains s sep = (sep \<in> set s)"

text \<open>
  \<^verbatim>\<open>strings.Split(s, sep)\<close>: while the separator occurs, cut the text before its first
  occurrence off and go on behind it; the rest is the last field. The result is never empty.
\<close>

function Split :: "string \<Rightarrow> char \<Rightarrow> string list" where
  "Split s sep =
     (if sep \<in> set s
      then takeWhile (\<lambda>c. c \<noteq> sep) s # Split (tl (dropWhile (\<lambda>c. c \<noteq> sep) s)) sep
      else [s])"
  by pat_completeness auto
termination
proof (relation "measure (\<lambda>(s, sep). length s)")
  show "wf (measure (\<lambda>(s, sep). length s))" by simp
next
  fix s :: string and sep :: char
  assume "sep \<in> set s"
  then have "dropWhile (\<lambda>c. c \<noteq> sep) s \<noteq> []" by simp
  then have "length (tl (dropWhile (\<lambda>c. c \<noteq> sep) s)) < length (dropWhile (\<lambda>c. c \<noteq> sep) s)"
    by (cases "dropWhile (\<lambda>c. c \<noteq> sep) s") simp_all
  also have "\<dots> \<le> length s" by (rule length_dropWhile_le)
  finally show "((tl (dropWhile (\<lambda>c. c \<noteq> sep) s), sep), (s, sep)) \<in> measure (\<lambda>(s, sep). length s)"
    by simp
qed

declare Split.simps [simp del]

definition Replace :: "string \<Rightarrow> char \<Rightarrow> string \<Rightarrow> string" where
  \<comment> \<open>\<^verbatim>\<open>strings.Replace(s, old, new, -1)\<close> for a one-byte \<^verbatim>\<open>old\<close>: every occurrence is replaced.\<close>
  "Replace s old new = concat (map (\<lambda>c. if c = old then new else [c]) s)"

definition Trim :: "string \<Rightarrow> string \<Rightarrow> string" where
  \<comment> \<open>\<^verbatim>\<open>strings.Trim(s, cutset)\<close> for a cutset of ASCII bytes: the leading and the trailing
      bytes of the cutset are removed.\<close>
  "Trim s cutset =
     rev (dropWhile (\<lambda>c. c \<in> set cutset) (rev (dropWhile (\<lambda>c. c \<in> set cutset) s)))"

text \<open>
  \<^verbatim>\<open>strings.TrimSpace\<close> removes the leading and the trailing runes of \<^verbatim>\<open>unicode.IsSpace\<close>,
  decoding the bytes as UTF-8. A byte sequence starts (ends) with such a rune exactly when it
  starts (ends) with the rune's UTF-8 encoding, so the model works on the encodings:
  U+0009 to U+000D, U+0020, U+0085, U+00A0, U+1680, U+2000 to U+200A, U+2028, U+2029,
  U+202F, U+205F and U+3000.
\<close>

definition spaceRunes :: "string list" where
  "spaceRunes =
     [[CHR 0x09], [CHR 0x0A], [CHR 0x0B], [CHR 0x0C], [CHR 0x0D], [CHR 0x20],
      [CHR 0xC2, CHR 0x85], [CHR 0xC2, CHR 0xA0],
      [CHR 0xE1, CHR 0x9A, CHR 0x80],
      [CHR 0xE2, CHR 0x80, CHR 0x80], [CHR 0xE2, CHR 0x80, CHR 0x81],
      [CHR 0xE2, CHR 0x80, CHR 0x82], [CHR 0xE2, CHR 0x80, CHR 0x83],
      [CHR 0xE2, CHR 0x80, CHR 0x84], [CHR 0xE2, CHR 0x80, CHR 0x85],
      [CHR 0xE2, CHR 0x80, CHR 0x86], [CHR 0xE2, CHR 0x80, CHR 0x87],
      [CHR 0xE2, CHR 0x80, CHR 0x88], [CHR 0xE2, CHR 0x80, CHR 0x89],
      [CHR 0xE2, CHR 0x80, CHR 0x8A],
      [CHR 0xE2, CHR 0x80, CHR 0xA8], [CHR 0xE2, CHR 0x80, CHR 0xA9],
      [CHR 0xE2, CHR 0x80, CHR 0xAF],
      [CHR 0xE2, CHR 0x81, CHR 0x9F],
      [CHR 0xE3, CHR 0x80, CHR 0x80]]"

fun leadingRune :: "string list \<Rightarrow> string \<Rightarrow> nat" where
  \<comment> \<open>The length of the first of the encodings that \<open>s\<close> starts with, 0 when there is none.\<close>
  "leadingRune [] s = 0"
| "leadingRune (e # es) s = (if take (length e) s = e then length e else leadingRune es s)"

function trimLeftRunes :: "string list \<Rightarrow> string \<Rightarrow> string" where
  "trimLeftRunes es s =
     (if leadingRune es s = 0 then s else trimLeftRunes es (drop (leadingRune es s) s))"
  by pat_completeness auto
termination
proof (relation "measure (\<lambda>(es, s). length s)")
  show "wf (measure (\<lambda>(es, s). length s))" by simp
next
  fix es :: "string list" and s :: string
  assume "leadingRune es s \<noteq> 0"
  moreover have "leadingRune es s \<le> length s"
  proof (induction es)
    case Nil
    show ?case by simp
  next
    case (Cons e es)
    have "length e \<le> length s" if "take (length e) s = e"
    proof -
      have "length (take (length e) s) = length e" using that by simp
      then show ?thesis by simp
    qed
    with Cons show ?case by simp
  qed
  ultimately show "((es, drop (leadingRune es s) s), (es, s)) \<in> measure (\<lambda>(es, s). length s)"
    by simp
qed

declare trimLeftRunes.simps [simp del]

definition TrimSpace :: "string \<Rightarrow> string" where
  "TrimSpace s =
     rev (trimLeftRunes (map rev spaceRunes) (rev (trimLeftRunes spaceRunes s)))"

text \<open>
  \<^verbatim>\<open>strconv.ParseUint(s, 10, 32)\<close> and \<^verbatim>\<open>strconv.ParseInt(s, 10, 32)\<close>. The caller only
  tests whether the error is nil, so a syntax error and a range error are both \<open>None\<close>.
  With base 10 given (not 0) an underscore is a syntax error, like every byte that is not a
  decimal digit.
\<close>

definition isDigit :: "char \<Rightarrow> bool" where
  "isDigit c = (48 \<le> (of_char c :: int) \<and> (of_char c :: int) \<le> 57)"

definition digitVal :: "char \<Rightarrow> int" where
  "digitVal c = of_char c - 48"

fun parseDigits :: "int \<Rightarrow> string \<Rightarrow> int option" where
  \<comment> \<open>The digit loop of ParseUint; \<open>n\<close> is the \<^verbatim>\<open>uint64\<close> read so far. It is at most
      \<open>2 ^ 32 - 1\<close>, so \<open>n * 10 + 9\<close> does not wrap.\<close>
  "parseDigits n [] = Some n"
| "parseDigits n (c # cs) =
     (if isDigit c
      then (if n * 10 + digitVal c > 2 ^ 32 - 1 then None
            else parseDigits (n * 10 + digitVal c) cs)
      else None)"

definition ParseUint :: "string \<Rightarrow> int option" where
  "ParseUint s = (if s = [] then None else parseDigits 0 s)"

definition ParseInt :: "string \<Rightarrow> int option" where
  "ParseInt s =
     (if s = [] then None
      else
        let neg = (hd s = CHR ''-'');
            s1 = (if hd s = CHR ''+'' \<or> hd s = CHR ''-'' then tl s else s)
        in case ParseUint s1 of
             None \<Rightarrow> None
           | Some un \<Rightarrow>
               if \<not> neg \<and> un \<ge> 2 ^ 31 then None
               else if neg \<and> un > 2 ^ 31 then None
               else Some (if neg then - un else un))"

section \<open>The compose service and the replica set\<close>

text \<open>
  The fields of libcompose's \<^verbatim>\<open>config.ServiceConfig\<close> that main reads, and the fields of the
  Kubernetes API objects that it sets. \<^verbatim>\<open>int32\<close> is a 32-bit word read with \<^const>\<open>sint\<close>, a
  \<^verbatim>\<open>map[string]string\<close> a map, a slice a list (the nil slice is the empty list).
  Go fields of different structs that share a name are told apart here: \<^verbatim>\<open>Name\<close> is
  \<open>EnvName\<close>, \<open>MountName\<close>, \<open>VolumeName\<close> or \<open>ContainerName\<close>, the container's \<^verbatim>\<open>Image\<close>,
  \<^verbatim>\<open>Command\<close> and \<^verbatim>\<open>Ports\<close> are \<open>ContainerImage\<close>, \<open>ContainerCommand\<close> and
  \<open>ContainerPorts\<close>, the pod's \<^verbatim>\<open>Volumes\<close> are \<open>PodVolumes\<close>, \<open>HostPath\<close> is
  \<^verbatim>\<open>VolumeSource.HostPath.Path\<close>, \<^verbatim>\<open>ObjectMeta\<close> is \<open>Meta\<close> on the replica set and
  \<open>TemplateMeta\<close> on the pod template, whose \<^verbatim>\<open>Spec\<close> is \<open>PodSpec\<close>.
\<close>

type_synonym int32 = "32 word"

record ServiceConfig =
  Image :: string
  Command :: "string list"
  Ports :: "string list"
  Environment :: "string list"
  Volumes :: "string list"
  Restart :: string

record ContainerPort =
  ContainerPort :: int32

record EnvVar =
  EnvName :: string
  EnvValue :: string

record VolumeMount =
  MountName :: string
  ReadOnly :: bool
  MountPath :: string

record Volume =
  VolumeName :: string
  HostPath :: string

text \<open>The zero value of \<^verbatim>\<open>api.RestartPolicy\<close> is the policy of a pod spec before the switch.\<close>

datatype RestartPolicy =
  RestartPolicyUnset | RestartPolicyAlways | RestartPolicyNever | RestartPolicyOnFailure

record Container =
  ContainerName :: string
  ContainerImage :: string
  ContainerCommand :: "string list"
  ContainerPorts :: "ContainerPort list"
  Env :: "EnvVar list"
  VolumeMounts :: "VolumeMount list"

record ObjectMeta =
  Name :: string
  Labels :: "string \<rightharpoonup> string"

record PodSpec =
  Containers :: "Container list"
  PodVolumes :: "Volume list"
  RestartPolicy :: RestartPolicy

record PodTemplateSpec =
  TemplateMeta :: ObjectMeta
  PodSpec :: PodSpec

record ReplicaSetSpec =
  Replicas :: int32
  Selector :: "(string \<rightharpoonup> string) option"
  Template :: PodTemplateSpec

record ReplicaSet =
  Kind :: string
  APIVersion :: string
  Meta :: ObjectMeta
  Spec :: ReplicaSetSpec

text \<open>
  What ends the program: the three \<^verbatim>\<open>log.Fatalf\<close> calls of the service loop, with the
  arguments of their messages in the order of the format string (line 67: the key; line 116:
  the port text that was parsed, then the service; line 178: the restart value, then the
  service), and the run-time panic of an index expression \<^verbatim>\<open>xs[i]\<close> with \<open>i\<close> not below
  the length (the index, then the length).
\<close>

datatype error =
  MissingKey string
| InvalidPort string string
| UnknownRestartPolicy string string
| IndexOutOfRange nat nat

definition index :: "'a list \<Rightarrow> nat \<Rightarrow> error + 'a" where
  "index xs i = (if i < length xs then Inr (xs ! i) else Inl (IndexOutOfRange i (length xs)))"

section \<open>The body of the service loop\<close>

text \<open>Lines 105 to 119: the loop over \<^verbatim>\<open>service.Ports\<close>; \<open>ports\<close> is the slice built so far.\<close>

fun containerPorts :: "string \<Rightarrow> string list \<Rightarrow> ContainerPort list \<Rightarrow> error + ContainerPort list" where
  "containerPorts name [] ports = Inr ports"
| "containerPorts name (port # rest) ports =
     (let port1 = Trim port [CHR 0x22];
          port2 = TrimSpace port1
      in case (if Contains port2 (CHR '':'') then index (Split port2 (CHR '':'')) 1 else Inr port2) of
           Inl e \<Rightarrow> Inl e
         | Inr port3 \<Rightarrow>
             (case ParseInt port3 of
                None \<Rightarrow> Inl (InvalidPort port3 name)
              | Some portNumber \<Rightarrow>
                  containerPorts name rest (ports @ [\<lparr>ContainerPort = of_int portNumber\<rparr>])))"

text \<open>Lines 123 to 131: the loop over \<^verbatim>\<open>service.Environment\<close>.\<close>

fun containerEnv :: "string list \<Rightarrow> EnvVar list \<Rightarrow> error + EnvVar list" where
  "containerEnv [] envs = Inr envs"
| "containerEnv (env # rest) envs =
     (if Contains env (CHR ''='')
      then (let parts = Split env (CHR ''='')
            in case index parts 0 of
                 Inl e \<Rightarrow> Inl e
               | Inr ename \<Rightarrow>
                   (case index parts 1 of
                      Inl e \<Rightarrow> Inl e
                    | Inr evalue \<Rightarrow>
                        containerEnv rest (envs @ [\<lparr>EnvName = ename, EnvValue = evalue\<rparr>])))
      else containerEnv rest envs)"

text \<open>
  Lines 143 to 152: the loop over \<^verbatim>\<open>parts[2:]\<close>. Each \<^verbatim>\<open>break\<close> leaves the switch, not
  the loop, so every option is looked at.
\<close>

fun readOnlyOpts :: "string list \<Rightarrow> bool \<Rightarrow> bool" where
  "readOnlyOpts [] partReadOnly = partReadOnly"
| "readOnlyOpts (partOpt # rest) partReadOnly =
     readOnlyOpts rest
       (if partOpt = ''ro'' then True else if partOpt = ''rw'' then False else partReadOnly)"

text \<open>Lines 135 to 165: the loop over \<^verbatim>\<open>service.Volumes\<close>, building both slices.\<close>

fun containerVolumes ::
  "string list \<Rightarrow> VolumeMount list \<Rightarrow> Volume list \<Rightarrow> error + VolumeMount list \<times> Volume list" where
  "containerVolumes [] volumemounts volumes = Inr (volumemounts, volumes)"
| "containerVolumes (volumestr # rest) volumemounts volumes =
     (let parts = Split volumestr (CHR '':'')
      in case index parts 0 of
           Inl e \<Rightarrow> Inl e
         | Inr partHostDir \<Rightarrow>
             (case index parts 1 of
                Inl e \<Rightarrow> Inl e
              | Inr partContainerDir \<Rightarrow>
                  (let partReadOnly =
                         (if length parts > 2 then readOnlyOpts (drop 2 parts) False else False);
                       partName = Replace partHostDir (CHR ''/'') [];
                       volumemounts1 =
                         (if length parts > 2
                          then volumemounts @ [\<lparr>MountName = partName, ReadOnly = partReadOnly,
                                                 MountPath = partContainerDir\<rparr>]
                          else volumemounts @ [\<lparr>MountName = partName, ReadOnly = partReadOnly,
                                                 MountPath = partContainerDir\<rparr>]);
                       volumes1 = volumes @ [\<lparr>VolumeName = partName, HostPath = partHostDir\<rparr>]
                   in containerVolumes rest volumemounts1 volumes1)))"

text \<open>Lines 170 to 179: the switch on \<^verbatim>\<open>service.Restart\<close>.\<close>

definition restartPolicy :: "string \<Rightarrow> string \<Rightarrow> error + RestartPolicy" where
  "restartPolicy name restart =
     (if restart = [] \<or> restart = ''always'' then Inr RestartPolicyAlways
      else if restart = ''no'' then Inr RestartPolicyNever
      else if restart = ''on-failure'' then Inr RestartPolicyOnFailure
      else Inl (UnknownRestartPolicy restart name))"

text \<open>
  Assignments through \<^verbatim>\<open>rs.Spec.Template.Spec\<close> and through its
  \<^verbatim>\<open>Containers[0]\<close>; the index is checked like every other.
\<close>

definition updPodSpec :: "(PodSpec \<Rightarrow> PodSpec) \<Rightarrow> ReplicaSet \<Rightarrow> ReplicaSet" where
  "updPodSpec f rs =
     rs\<lparr>Spec := (Spec rs)\<lparr>Template := (Template (Spec rs))\<lparr>PodSpec := f (PodSpec (Template (Spec rs)))\<rparr>\<rparr>\<rparr>"

definition updContainer0 :: "(Container \<Rightarrow> Container) \<Rightarrow> ReplicaSet \<Rightarrow> error + ReplicaSet" where
  "updContainer0 f rs =
     (case index (Containers (PodSpec (Template (Spec rs)))) 0 of
        Inl e \<Rightarrow> Inl e
      | Inr c \<Rightarrow>
          Inr (updPodSpec (\<lambda>spec. spec\<lparr>Containers := (Containers spec)[0 := f c]\<rparr>) rs))"

text \<open>
  Lines 70 to 179: one service is turned into its replica set, or the program ends.
\<close>

definition replicaSet :: "string \<Rightarrow> ServiceConfig \<Rightarrow> error + ReplicaSet" where
  "replicaSet name service =
     (let objectMeta = \<lparr>Name = name, Labels = [''service'' \<mapsto> name]\<rparr>;
          podTemplateSpec =
            \<lparr>TemplateMeta = \<lparr>Name = [], Labels = [''service'' \<mapsto> name]\<rparr>,
             PodSpec =
               \<lparr>Containers =
                  [\<lparr>ContainerName = name, ContainerImage = Image service,
                    ContainerCommand = Command service,
                    ContainerPorts = [], Env = [], VolumeMounts = []\<rparr>],
                PodVolumes = [], RestartPolicy = RestartPolicyUnset\<rparr>\<rparr>;
          rs = \<lparr>Kind = ''ReplicaSet'', APIVersion = ''extensions/v1beta1'', Meta = objectMeta,
                Spec = \<lparr>Replicas = 1, Selector = None, Template = podTemplateSpec\<rparr>\<rparr>
      in case containerPorts name (Ports service) [] of
           Inl e \<Rightarrow> Inl e
         | Inr ports \<Rightarrow>
      (case updContainer0 (\<lambda>c. c\<lparr>ContainerPorts := ports\<rparr>) rs of
           Inl e \<Rightarrow> Inl e
         | Inr rs1 \<Rightarrow>
      (case containerEnv (Environment service) [] of
           Inl e \<Rightarrow> Inl e
         | Inr envs \<Rightarrow>
      (case updContainer0 (\<lambda>c. c\<lparr>Env := envs\<rparr>) rs1 of
           Inl e \<Rightarrow> Inl e
         | Inr rs2 \<Rightarrow>
      (case containerVolumes (Volumes service) [] [] of
           Inl e \<Rightarrow> Inl e
         | Inr (volumemounts, volumes) \<Rightarrow>
      (case updContainer0 (\<lambda>c. c\<lparr>VolumeMounts := volumemounts\<rparr>) rs2 of
           Inl e \<Rightarrow> Inl e
         | Inr rs3 \<Rightarrow>
      (let rs4 = updPodSpec (\<lambda>spec. spec\<lparr>PodVolumes := volumes\<rparr>) rs3
       in case restartPolicy name (Restart service) of
            Inl e \<Rightarrow> Inl e
          | Inr policy \<Rightarrow> Inr (updPodSpec (\<lambda>spec. spec\<lparr>RestartPolicy := policy\<rparr>) rs4))))))))"

text \<open>
  Lines 64 to 195: the loop over the keys. \<open>configs\<close> is \<^verbatim>\<open>p.ServiceConfigs\<close>, \<open>keys\<close> what
  its \<^verbatim>\<open>Keys()\<close> returned, \<open>written\<close> the files written so far, each with the name
  \<^verbatim>\<open><name>-rs.json\<close> it has in the output directory. Marshalling and writing are taken to
  succeed. The result is the files written and what ended the program early, if anything did.
\<close>

fun mainLoop ::
  "(string \<rightharpoonup> ServiceConfig) \<Rightarrow> string list \<Rightarrow> (string \<times> ReplicaSet) list
     \<Rightarrow> (string \<times> ReplicaSet) list \<times> error option" where
  "mainLoop configs [] written = (written, None)"
| "mainLoop configs (name # keys) written =
     (case configs name of
        None \<Rightarrow> (written, Some (MissingKey name))
      | Some service \<Rightarrow>
          (case replicaSet name service of
             Inl e \<Rightarrow> (written, Some e)
           | Inr rs \<Rightarrow> mainLoop configs keys (written @ [(name @ ''-rs.json'', rs)])))"

section \<open>The mapping rules in the words of the specification\<close>

text \<open>
  Second definitions, written from the description of the rules and not from the code; the
  theorems below compare the loops of the program with them.
\<close>

text \<open>The text before the first separator (all of it when there is none).\<close>

definition firstField :: "char \<Rightarrow> string \<Rightarrow> string" where
  "firstField sep s = takeWhile (\<lambda>c. c \<noteq> sep) s"

text \<open>The text between the first separator and the second (or the end).\<close>

definition secondField :: "char \<Rightarrow> string \<Rightarrow> string" where
  "secondField sep s = takeWhile (\<lambda>c. c \<noteq> sep) (tl (dropWhile (\<lambda>c. c \<noteq> sep) s))"

text \<open>Surrounding double-quote characters are stripped.\<close>

definition stripQuotes :: "string \<Rightarrow> string" where
  "stripQuotes s = rev (dropWhile (\<lambda>c. c = CHR 0x22) (rev (dropWhile (\<lambda>c. c = CHR 0x22) s)))"

text \<open>
  Port rule, steps 1 and 2: strip the quotes, then the whitespace; of \<^verbatim>\<open>HOST:CONTAINER\<close>
  take the second field.
\<close>

definition portField :: "string \<Rightarrow> string" where
  "portField port =
     (let cleaned = TrimSpace (stripQuotes port)
      in if CHR '':'' \<in> set cleaned then secondField (CHR '':'') cleaned else cleaned)"

text \<open>
  Port rule, step 3: a base-10 signed 32-bit integer. The text is an optional sign and at
  least one decimal digit, its value is the sum of the digits times their powers of ten, and
  the value lies between \<open>- 2^31\<close> and \<open>2^31 - 1\<close>.
\<close>

fun littleEndian :: "string \<Rightarrow> int" where
  "littleEndian [] = 0"
| "littleEndian (c # cs) = digitVal c + 10 * littleEndian cs"

definition decimal :: "string \<Rightarrow> int" where
  "decimal ds = littleEndian (rev ds)"

definition int32Decimal :: "string \<Rightarrow> int option" where
  "int32Decimal s =
     (let neg = (s \<noteq> [] \<and> hd s = CHR ''-'');
          ds = (if s \<noteq> [] \<and> (hd s = CHR ''+'' \<or> hd s = CHR ''-'') then tl s else s);
          n = (if neg then - decimal ds else decimal ds)
      in if ds \<noteq> [] \<and> list_all isDigit ds \<and> - (2 ^ 31) \<le> n \<and> n < 2 ^ 31
         then Some n else None)"

text \<open>Environment rule: key and value of an entry with a separator.\<close>

definition envOf :: "string \<Rightarrow> EnvVar" where
  "envOf env = \<lparr>EnvName = firstField (CHR ''='') env, EnvValue = secondField (CHR ''='') env\<rparr>"

text \<open>
  Volume rule, step 3: of the tokens \<^verbatim>\<open>ro\<close> and \<^verbatim>\<open>rw\<close> among the options the last one
  decides; without any the mount is not read-only.
\<close>

definition lastMode :: "string list \<Rightarrow> bool" where
  "lastMode opts =
     (let modes = filter (\<lambda>t. t = ''ro'' \<or> t = ''rw'') opts
      in modes \<noteq> [] \<and> last modes = ''ro'')"

text \<open>Volume rule, step 4: the host path with every \<^verbatim>\<open>/\<close> deleted.\<close>

definition mountName :: "string \<Rightarrow> string" where
  "mountName hostPath = filter (\<lambda>c. c \<noteq> CHR ''/'') hostPath"

text \<open>Volume rule, steps 2 to 5: the mount and the volume of one entry.\<close>

definition mountOf :: "string \<Rightarrow> VolumeMount" where
  "mountOf v =
     \<lparr>MountName = mountName (firstField (CHR '':'') v),
      ReadOnly = lastMode (drop 2 (Split v (CHR '':''))),
      MountPath = secondField (CHR '':'') v\<rparr>"

definition volumeOf :: "string \<Rightarrow> Volume" where
  "volumeOf v =
     \<lparr>VolumeName = mountName (firstField (CHR '':'') v), HostPath = firstField (CHR '':'') v\<rparr>"

text \<open>
  The replica set of a service whose lists have been mapped: the skeleton of lines 70 to 102
  with the slices and the policy that lines 120 to 176 assign.
\<close>

definition descriptor ::
  "string \<Rightarrow> ServiceConfig \<Rightarrow> ContainerPort list \<Rightarrow> EnvVar list \<Rightarrow> VolumeMount list \<Rightarrow> Volume list
     \<Rightarrow> RestartPolicy \<Rightarrow> ReplicaSet" where
  "descriptor name service ports envs mounts vols policy =
     \<lparr>Kind = ''ReplicaSet'', APIVersion = ''extensions/v1beta1'',
      Meta = \<lparr>Name = name, Labels = [''service'' \<mapsto> name]\<rparr>,
      Spec =
        \<lparr>Replicas = 1, Selector = None,
         Template =
           \<lparr>TemplateMeta = \<lparr>Name = [], Labels = [''service'' \<mapsto> name]\<rparr>,
            PodSpec =
              \<lparr>Containers =
                 [\<lparr>ContainerName = name, ContainerImage = Image service,
                   ContainerCommand = Command service, ContainerPorts = ports, Env = envs,
                   VolumeMounts = mounts\<rparr>],
               PodVolumes = vols, RestartPolicy = policy\<rparr>\<rparr>\<rparr>\<rparr>"

text \<open>
  The end-to-end scenario of the specification: the service \<^verbatim>\<open>web\<close>, and the replica set
  that the specification expects for it.
\<close>

definition web :: ServiceConfig where
  "web =
     \<lparr>Image = ''nginx'', Command = [], Ports = [''8080:80''], Environment = [''DEBUG=true''],
      Volumes = [''/host/data:/data:ro''], Restart = []\<rparr>"

definition webReplicaSet :: ReplicaSet where
  "webReplicaSet =
     descriptor ''web'' web [\<lparr>ContainerPort = 80\<rparr>] [\<lparr>EnvName = ''DEBUG'', EnvValue = ''true''\<rparr>]
       [\<lparr>MountName = ''hostdata'', ReadOnly = True, MountPath = ''/data''\<rparr>]
       [\<lparr>VolumeName = ''hostdata'', HostPath = ''/host/data''\<rparr>] RestartPolicyAlways"

text \<open>The fatal scenario of the specification: a service with a port that is not a number.\<close>

definition api :: ServiceConfig where
  "api =
     \<lparr>Image = ''busybox'', Command = [''sh''], Ports = [''notanumber''], Environment = [],
      Volumes = [], Restart = ''always''\<rparr>"

text \<open>A service with two ports, two environment entries and two volumes.\<close>

definition store :: ServiceConfig where
  "store =
     \<lparr>Image = ''postgres'', Command = [], Ports = [''5432:5432'', ''9187''],
      Environment = [''PGDATA=/var/lib/db'', ''VERBOSE''],
      Volumes = [''/data/db:/var/lib/db'', ''/etc/conf.d:/conf:ro''], Restart = ''on-failure''\<rparr>"

definition storeReplicaSet :: ReplicaSet where
  "storeReplicaSet =
     descriptor ''store'' store [\<lparr>ContainerPort = 5432\<rparr>, \<lparr>ContainerPort = 9187\<rparr>]
       [\<lparr>EnvName = ''PGDATA'', EnvValue = ''/var/lib/db''\<rparr>]
       [\<lparr>MountName = ''datadb'', ReadOnly = False, MountPath = ''/var/lib/db''\<rparr>,
        \<lparr>MountName = ''etcconf.d'', ReadOnly = True, MountPath = ''/conf''\<rparr>]
       [\<lparr>VolumeName = ''datadb'', HostPath = ''/data/db''\<rparr>,
        \<lparr>VolumeName = ''etcconf.d'', HostPath = ''/etc/conf.d''\<rparr>]
       RestartPolicyOnFailure"

section \<open>Facts about the library functions\<close>

lemma takeWhile_without: "sep \<notin> set s \<Longrightarrow> takeWhile (\<lambda>c. c \<noteq> sep) s = s"
  by (induction s) auto

lemma Split_without: "sep \<notin> set s \<Longrightarrow> Split s sep = [s]"
  by (simp add: Split.simps)

lemma Split_with:
  "sep \<in> set s \<Longrightarrow>
     Split s sep = takeWhile (\<lambda>c. c \<noteq> sep) s # Split (tl (dropWhile (\<lambda>c. c \<noteq> sep) s)) sep"
  by (subst Split.simps) simp

lemma Split_not_Nil: "Split s sep \<noteq> []"
  by (subst Split.simps) simp

lemma Split_two:
  "sep \<in> set s \<Longrightarrow> \<exists>fs. Split s sep = firstField sep s # secondField sep s # fs"
proof -
  assume h: "sep \<in> set s"
  let ?r = "tl (dropWhile (\<lambda>c. c \<noteq> sep) s)"
  have "\<exists>fs. Split ?r sep = takeWhile (\<lambda>c. c \<noteq> sep) ?r # fs"
    by (cases "sep \<in> set ?r") (simp_all add: Split_with Split_without takeWhile_without)
  with h show ?thesis
    by (auto simp: Split_with firstField_def secondField_def)
qed

lemma Split_two_iff: "2 \<le> length (Split s sep) \<longleftrightarrow> sep \<in> set s"
proof (cases "sep \<in> set s")
  case True
  with Split_two [of sep s] show ?thesis by auto
next
  case False
  then show ?thesis by (simp add: Split_without)
qed

lemma index_Split_0: "index (Split s sep) 0 = Inr (firstField sep s)"
  by (cases "sep \<in> set s")
    (simp_all add: index_def Split_with Split_without firstField_def takeWhile_without)

lemma index_Split_1_with:
  "sep \<in> set s \<Longrightarrow> index (Split s sep) (Suc 0) = Inr (secondField sep s)"
  using Split_two [of sep s] by (auto simp: index_def)

lemma index_Split_1_without:
  "sep \<notin> set s \<Longrightarrow> index (Split s sep) (Suc 0) = Inl (IndexOutOfRange 1 1)"
  by (simp add: index_def Split_without)

lemma Trim_quote: "Trim s [CHR 0x22] = stripQuotes s"
  by (simp add: Trim_def stripQuotes_def)

lemma containerPorts_Cons:
  "containerPorts name (port # rest) ports =
     (case ParseInt (portField port) of
        None \<Rightarrow> Inl (InvalidPort (portField port) name)
      | Some n \<Rightarrow> containerPorts name rest (ports @ [\<lparr>ContainerPort = of_int n\<rparr>]))"
  unfolding portField_def Let_def
  by (cases "CHR '':'' \<in> set (TrimSpace (stripQuotes port))")
    (simp_all add: Let_def Contains_def index_Split_1_with Trim_quote)

lemma containerPorts_Inr_iff:
  "containerPorts name ps acc = Inr out \<longleftrightarrow>
     (\<forall>p \<in> set ps. ParseInt (portField p) \<noteq> None) \<and>
     out = acc @ map (\<lambda>p. \<lparr>ContainerPort = of_int (the (ParseInt (portField p)))\<rparr>) ps"
proof (induction ps arbitrary: acc)
  case Nil
  show ?case by auto
next
  case (Cons p ps)
  show ?case
  proof (cases "ParseInt (portField p)")
    case None
    then show ?thesis by (simp add: containerPorts_Cons del: containerPorts.simps)
  next
    case (Some n)
    then show ?thesis by (simp add: containerPorts_Cons Cons.IH del: containerPorts.simps)
  qed
qed

lemma containerPorts_Inl:
  "containerPorts name ps acc = Inl e \<Longrightarrow>
     \<exists>p \<in> set ps. ParseInt (portField p) = None \<and> e = InvalidPort (portField p) name"
proof (induction ps arbitrary: acc)
  case Nil
  then show ?case by simp
next
  case (Cons p ps)
  show ?case
  proof (cases "ParseInt (portField p)")
    case None
    with Cons.prems show ?thesis by (simp add: containerPorts_Cons del: containerPorts.simps)
  next
    case (Some n)
    with Cons.prems have "containerPorts name ps (acc @ [\<lparr>ContainerPort = of_int n\<rparr>]) = Inl e"
      by (simp add: containerPorts_Cons del: containerPorts.simps)
    from Cons.IH [OF this] show ?thesis by auto
  qed
qed

lemma parseDigits_lower: "parseDigits n s = Some m \<Longrightarrow> 0 \<le> n \<Longrightarrow> 0 \<le> m"
proof (induction s arbitrary: n)
  case Nil
  then show ?case by simp
next
  case (Cons c cs)
  from Cons.prems(1) have d: "isDigit c" and r: "parseDigits (n * 10 + digitVal c) cs = Some m"
    by (auto split: if_splits)
  from d have "0 \<le> digitVal c" by (simp add: isDigit_def digitVal_def)
  with Cons.prems(2) have "0 \<le> n * 10 + digitVal c" by simp
  with r show ?case by (rule Cons.IH)
qed

lemma ParseInt_range: "ParseInt s = Some n \<Longrightarrow> - (2 ^ 31) \<le> n \<and> n < 2 ^ 31"
proof -
  assume h: "ParseInt s = Some n"
  then have ne: "s \<noteq> []" by (auto simp: ParseInt_def)
  define s1 where "s1 = (if hd s = CHR ''+'' \<or> hd s = CHR ''-'' then tl s else s)"
  from h ne obtain un where un: "ParseUint s1 = Some un"
    by (auto simp: ParseInt_def s1_def Let_def split: option.splits)
  then have pos: "0 \<le> un"
    using parseDigits_lower [of 0 s1 un] by (auto simp: ParseUint_def split: if_splits)
  show ?thesis
  proof (cases "hd s = CHR ''-''")
    case True
    with h ne un have "un \<le> 2 ^ 31" "n = - un"
      by (auto simp: ParseInt_def s1_def Let_def split: if_splits)
    with pos show ?thesis by simp
  next
    case False
    with h ne un have "un < 2 ^ 31" "n = un"
      by (auto simp: ParseInt_def s1_def Let_def split: if_splits)
    with pos show ?thesis by simp
  qed
qed

lemma sint_ParseInt: "ParseInt s = Some n \<Longrightarrow> sint (of_int n :: int32) = n"
  using ParseInt_range [of s n] by (simp add: signed_of_int signed_take_bit_int_eq_self)

lemma littleEndian_snoc:
  "littleEndian (cs @ [c]) = littleEndian cs + 10 ^ length cs * digitVal c"
  by (induction cs) (simp_all add: algebra_simps)

lemma decimal_Cons: "decimal (c # cs) = digitVal c * 10 ^ length cs + decimal cs"
  by (simp add: decimal_def littleEndian_snoc)

lemma digitVal_nonneg: "isDigit c \<Longrightarrow> 0 \<le> digitVal c"
  by (simp add: isDigit_def digitVal_def)

lemma decimal_Nil: "decimal [] = 0"
  by (simp add: decimal_def)

lemma decimal_nonneg: "list_all isDigit ds \<Longrightarrow> 0 \<le> decimal ds"
  by (induction ds) (simp_all add: decimal_Cons decimal_Nil digitVal_nonneg)

lemma parseDigits_decimal:
  "0 \<le> n \<Longrightarrow> n \<le> 2 ^ 32 - 1 \<Longrightarrow>
     parseDigits n ds =
       (if list_all isDigit ds \<and> n * 10 ^ length ds + decimal ds \<le> 2 ^ 32 - 1
        then Some (n * 10 ^ length ds + decimal ds) else None)"
proof (induction ds arbitrary: n)
  case Nil
  then show ?case by (simp add: decimal_Nil)
next
  case (Cons c cs)
  show ?case
  proof (cases "isDigit c")
    case False
    then show ?thesis by simp
  next
    case True
    let ?n1 = "n * 10 + digitVal c"
    from True Cons.prems(1) have n1: "0 \<le> ?n1" by (simp add: digitVal_nonneg)
    have eq: "?n1 * 10 ^ length cs + decimal cs = n * 10 ^ length (c # cs) + decimal (c # cs)"
      by (simp add: decimal_Cons algebra_simps)
    show ?thesis
    proof (cases "?n1 > 2 ^ 32 - 1")
      case False
      then have "?n1 \<le> 2 ^ 32 - 1" by simp
      from Cons.IH [OF n1 this] True False show ?thesis unfolding eq [symmetric] by simp
    next
      case big: True
      have "n * 10 ^ length (c # cs) + decimal (c # cs) > 2 ^ 32 - 1" if "list_all isDigit cs"
      proof -
        from that have "0 \<le> decimal cs" by (rule decimal_nonneg)
        moreover have "?n1 * 1 \<le> ?n1 * 10 ^ length cs"
          using n1 by (intro mult_left_mono) simp_all
        ultimately have "?n1 \<le> ?n1 * 10 ^ length cs + decimal cs" by simp
        with big show ?thesis unfolding eq by simp
      qed
      with True big show ?thesis by auto
    qed
  qed
qed

lemma ParseUint_decimal:
  "ParseUint s = Some un \<longleftrightarrow> s \<noteq> [] \<and> list_all isDigit s \<and> un = decimal s \<and> decimal s < 2 ^ 32"
  using parseDigits_decimal [of 0 s] by (auto simp: ParseUint_def)

lemma sign_not_digit: "\<not> isDigit (CHR ''+'')" "\<not> isDigit (CHR ''-'')"
  by (simp_all add: isDigit_def)

lemma ParseInt_decimal:
  "ParseInt s = Some n \<longleftrightarrow>
     (\<exists>ds. ds \<noteq> [] \<and> list_all isDigit ds \<and>
        ((s = ds \<or> s = CHR ''+'' # ds) \<and> n = decimal ds \<and> decimal ds < 2 ^ 31 \<or>
         s = CHR ''-'' # ds \<and> n = - decimal ds \<and> decimal ds \<le> 2 ^ 31))"
  (is "?lhs \<longleftrightarrow> ?rhs")
proof
  assume h: ?lhs
  then have ne: "s \<noteq> []" by (auto simp: ParseInt_def)
  define ds where "ds = (if hd s = CHR ''+'' \<or> hd s = CHR ''-'' then tl s else s)"
  from h ne obtain un where un: "ParseUint ds = Some un"
    by (auto simp: ParseInt_def ds_def Let_def split: option.splits)
  from ne have s: "s = hd s # tl s" by simp
  from un have d: "ds \<noteq> []" "list_all isDigit ds" "un = decimal ds"
    by (simp_all add: ParseUint_decimal)
  show ?rhs
  proof (cases "hd s = CHR ''-''")
    case True
    with h ne un have "un \<le> 2 ^ 31" "n = - un"
      by (auto simp: ParseInt_def ds_def Let_def split: if_splits)
    moreover from True s have "s = CHR ''-'' # ds" by (simp add: ds_def)
    ultimately show ?thesis using d by blast
  next
    case False
    with h ne un have "un < 2 ^ 31" "n = un"
      by (auto simp: ParseInt_def ds_def Let_def split: if_splits)
    moreover from False s have "s = ds \<or> s = CHR ''+'' # ds" by (auto simp: ds_def)
    ultimately show ?thesis using d by blast
  qed
next
  assume ?rhs
  then obtain ds where ds: "ds \<noteq> []" "list_all isDigit ds"
    and cases: "(s = ds \<or> s = CHR ''+'' # ds) \<and> n = decimal ds \<and> decimal ds < 2 ^ 31 \<or>
         s = CHR ''-'' # ds \<and> n = - decimal ds \<and> decimal ds \<le> 2 ^ 31"
    by blast
  from ds obtain c cs where c: "ds = c # cs" "isDigit c" by (cases ds) auto
  with sign_not_digit have nosign: "c \<noteq> CHR ''+''" "c \<noteq> CHR ''-''" by auto
  from cases consider
      (plain) "s = ds" "n = decimal ds" "decimal ds < 2 ^ 31"
    | (plus) "s = CHR ''+'' # ds" "n = decimal ds" "decimal ds < 2 ^ 31"
    | (minus) "s = CHR ''-'' # ds" "n = - decimal ds" "decimal ds \<le> 2 ^ 31"
    by blast
  then show ?lhs
  proof cases
    case plain
    then have "ParseUint ds = Some (decimal ds)" using ds by (simp add: ParseUint_decimal)
    with plain c nosign show ?thesis by (simp add: ParseInt_def)
  next
    case plus
    then have "ParseUint ds = Some (decimal ds)" using ds by (simp add: ParseUint_decimal)
    with plus show ?thesis by (simp add: ParseInt_def)
  next
    case minus
    then have "ParseUint ds = Some (decimal ds)" using ds by (simp add: ParseUint_decimal)
    with minus show ?thesis by (simp add: ParseInt_def)
  qed
qed


lemma int32Decimal_Some:
  "int32Decimal s = Some n \<longleftrightarrow>
     (\<exists>ds. ds \<noteq> [] \<and> list_all isDigit ds \<and>
        ((s = ds \<or> s = CHR ''+'' # ds) \<and> n = decimal ds \<and> decimal ds < 2 ^ 31 \<or>
         s = CHR ''-'' # ds \<and> n = - decimal ds \<and> decimal ds \<le> 2 ^ 31))"
  (is "?lhs \<longleftrightarrow> ?rhs")
proof
  assume h: ?lhs
  define ds where "ds = (if s \<noteq> [] \<and> (hd s = CHR ''+'' \<or> hd s = CHR ''-'') then tl s else s)"
  from h have d: "ds \<noteq> []" "list_all isDigit ds"
    by (auto simp: int32Decimal_def ds_def Let_def split: if_splits)
  then have "s \<noteq> []" by (auto simp: ds_def split: if_splits)
  then obtain c cs where s: "s = c # cs" by (cases s) auto
  have ds_eq: "ds = (if c = CHR ''+'' \<or> c = CHR ''-'' then cs else c # cs)"
    by (simp add: ds_def s)
  show ?rhs
  proof (cases "c = CHR ''-''")
    case True
    with h have "n = - decimal ds" "- (2 ^ 31) \<le> n"
      by (auto simp: int32Decimal_def ds_eq s Let_def split: if_splits)
    then have "n = - decimal ds" "decimal ds \<le> 2 ^ 31" by simp_all
    moreover from True have "s = CHR ''-'' # ds" by (simp add: ds_eq s)
    ultimately show ?thesis using d by blast
  next
    case False
    with h have "n = decimal ds" "n < 2 ^ 31"
      by (auto simp: int32Decimal_def ds_eq s Let_def split: if_splits)
    then have "n = decimal ds" "decimal ds < 2 ^ 31" by simp_all
    moreover from False have "s = ds \<or> s = CHR ''+'' # ds" by (simp add: ds_eq s)
    ultimately show ?thesis using d by blast
  qed
next
  assume ?rhs
  then obtain ds where ds: "ds \<noteq> []" "list_all isDigit ds"
    and cases: "(s = ds \<or> s = CHR ''+'' # ds) \<and> n = decimal ds \<and> decimal ds < 2 ^ 31 \<or>
         s = CHR ''-'' # ds \<and> n = - decimal ds \<and> decimal ds \<le> 2 ^ 31"
    by blast
  from ds obtain c cs where c: "ds = c # cs" "isDigit c" by (cases ds) auto
  with sign_not_digit have nosign: "c \<noteq> CHR ''+''" "c \<noteq> CHR ''-''" by auto
  from ds have pos: "0 \<le> decimal ds" by (simp add: decimal_nonneg)
  from cases consider
      (plain) "s = ds" "n = decimal ds" "decimal ds < 2 ^ 31"
    | (plus) "s = CHR ''+'' # ds" "n = decimal ds" "decimal ds < 2 ^ 31"
    | (minus) "s = CHR ''-'' # ds" "n = - decimal ds" "decimal ds \<le> 2 ^ 31"
    by blast
  then show ?lhs
  proof cases
    case plain
    with ds pos c nosign show ?thesis by (simp add: int32Decimal_def)
  next
    case plus
    with ds pos show ?thesis by (simp add: int32Decimal_def)
  next
    case minus
    with ds pos show ?thesis by (simp add: int32Decimal_def)
  qed
qed

lemma ParseInt_int32Decimal: "ParseInt s = int32Decimal s"
proof -
  have iff: "ParseInt s = Some n \<longleftrightarrow> int32Decimal s = Some n" for n
    by (rule trans [OF ParseInt_decimal int32Decimal_Some [symmetric]])
  show ?thesis
  proof (cases "ParseInt s")
    case None
    have "int32Decimal s = None"
    proof (rule ccontr)
      assume "int32Decimal s \<noteq> None"
      then obtain n where "int32Decimal s = Some n" by blast
      then have "ParseInt s = Some n" by (rule iff [THEN iffD2])
      with None show False by simp
    qed
    with None show ?thesis by simp
  next
    case (Some n)
    then have "int32Decimal s = Some n" by (rule iff [THEN iffD1])
    with Some show ?thesis by simp
  qed
qed

lemma containerEnv_eq:
  "containerEnv envs acc = Inr (acc @ map envOf (filter (\<lambda>e. CHR ''='' \<in> set e) envs))"
proof (induction envs arbitrary: acc)
  case Nil
  show ?case by simp
next
  case (Cons e envs)
  show ?case
  proof (cases "CHR ''='' \<in> set e")
    case True
    then show ?thesis
      by (simp add: Contains_def index_Split_0 index_Split_1_with Cons.IH envOf_def)
  next
    case False
    then show ?thesis by (simp add: Contains_def Cons.IH)
  qed
qed

lemma Replace_delete: "Replace s c [] = filter (\<lambda>x. x \<noteq> c) s"
  by (induction s) (simp_all add: Replace_def)

lemma readOnlyOpts_eq:
  "readOnlyOpts opts b =
     (if filter (\<lambda>t. t = ''ro'' \<or> t = ''rw'') opts = [] then b
      else last (filter (\<lambda>t. t = ''ro'' \<or> t = ''rw'') opts) = ''ro'')"
proof (induction opts arbitrary: b)
  case Nil
  show ?case by simp
next
  case (Cons t opts)
  show ?case by (simp add: Cons.IH)
qed

lemma readOnlyOpts_lastMode: "readOnlyOpts opts False = lastMode opts"
  by (simp add: readOnlyOpts_eq lastMode_def Let_def)

lemma lastMode_Nil: "lastMode [] = False"
  by (simp add: lastMode_def)

lemma containerVolumes_with:
  "CHR '':'' \<in> set v \<Longrightarrow>
     containerVolumes (v # rest) ms vols = containerVolumes rest (ms @ [mountOf v]) (vols @ [volumeOf v])"
  by (simp add: Let_def index_Split_0 index_Split_1_with Replace_delete readOnlyOpts_lastMode
        mountOf_def volumeOf_def mountName_def lastMode_Nil)

lemma containerVolumes_without:
  "CHR '':'' \<notin> set v \<Longrightarrow> containerVolumes (v # rest) ms vols = Inl (IndexOutOfRange 1 1)"
  by (simp add: Let_def index_Split_0 index_Split_1_without)

lemma containerVolumes_Inr_iff:
  "containerVolumes vs ms vols = Inr r \<longleftrightarrow>
     (\<forall>v \<in> set vs. CHR '':'' \<in> set v) \<and> r = (ms @ map mountOf vs, vols @ map volumeOf vs)"
proof (induction vs arbitrary: ms vols)
  case Nil
  show ?case by auto
next
  case (Cons v vs)
  show ?case
  proof (cases "CHR '':'' \<in> set v")
    case True
    then show ?thesis by (simp add: containerVolumes_with Cons.IH del: containerVolumes.simps)
  next
    case False
    then show ?thesis by (simp add: containerVolumes_without del: containerVolumes.simps)
  qed
qed

lemma containerVolumes_Inl:
  "containerVolumes vs ms vols = Inl e \<Longrightarrow>
     e = IndexOutOfRange 1 1 \<and> (\<exists>v \<in> set vs. CHR '':'' \<notin> set v)"
proof (induction vs arbitrary: ms vols)
  case Nil
  then show ?case by simp
next
  case (Cons v vs)
  show ?case
  proof (cases "CHR '':'' \<in> set v")
    case True
    with Cons.prems have "containerVolumes vs (ms @ [mountOf v]) (vols @ [volumeOf v]) = Inl e"
      by (simp add: containerVolumes_with del: containerVolumes.simps)
    from Cons.IH [OF this] show ?thesis by auto
  next
    case False
    with Cons.prems show ?thesis by (simp add: containerVolumes_without del: containerVolumes.simps)
  qed
qed

lemma replicaSet_eq:
  "replicaSet name service =
     (case containerPorts name (Ports service) [] of
        Inl e \<Rightarrow> Inl e
      | Inr ports \<Rightarrow>
          (case containerVolumes (Volumes service) [] [] of
             Inl e \<Rightarrow> Inl e
           | Inr (mounts, vols) \<Rightarrow>
               (case restartPolicy name (Restart service) of
                  Inl e \<Rightarrow> Inl e
                | Inr policy \<Rightarrow>
                    Inr (descriptor name service ports
                          (map envOf (filter (\<lambda>e. CHR ''='' \<in> set e) (Environment service)))
                          mounts vols policy))))"
  by (simp add: replicaSet_def Let_def containerEnv_eq updContainer0_def updPodSpec_def index_def
        descriptor_def split: sum.splits prod.splits)

lemma Split_nth_0: "Split s sep ! 0 = firstField sep s"
  using index_Split_0 [of s sep] Split_not_Nil [of s sep] by (simp add: index_def)

lemma Split_nth_1: "sep \<in> set s \<Longrightarrow> Split s sep ! Suc 0 = secondField sep s"
  using Split_two [of sep s] by auto

lemma secondField_append:
  "sep \<notin> set a \<Longrightarrow> sep \<notin> set b \<Longrightarrow> secondField sep (a @ sep # b @ sep # c) = b"
proof -
  assume a: "sep \<notin> set a" and b: "sep \<notin> set b"
  from a have "dropWhile (\<lambda>c. c \<noteq> sep) (a @ sep # b @ sep # c) = sep # b @ sep # c"
    by (auto simp: dropWhile_append3)
  moreover from b have "takeWhile (\<lambda>c. c \<noteq> sep) (b @ sep # c) = b"
    by (simp add: takeWhile_tail takeWhile_without)
  ultimately show ?thesis by (simp add: secondField_def)
qed

section \<open>The port mapping\<close>

lemma portField_examples:
  "portField ''8080:80'' = ''80''"
  "portField ''80'' = ''80''"
  "portField ([CHR 0x22, CHR 0x20] @ ''53'' @ [CHR 0x20, CHR 0x22]) = ''53''"
  "portField ([CHR 0x20, CHR 0x22] @ ''53'' @ [CHR 0x22, CHR 0x20]) = [CHR 0x22] @ ''53'' @ [CHR 0x22]"
  "portField ''abc'' = ''abc''"
  "portField ''a:b:c'' = ''b''"
  "portField ''127.0.0.1:8080:80'' = ''8080''"
  by code_simp+

lemma ParseInt_examples:
  "ParseInt ''80'' = Some 80"
  "ParseInt ''53'' = Some 53"
  "ParseInt ''8080'' = Some 8080"
  "ParseInt ([CHR 0x22] @ ''53'' @ [CHR 0x22]) = None"
  "ParseInt ''abc'' = None"
  "ParseInt ''b'' = None"
  by code_simp+

text \<open>
  Claim C1, as the specification states it, has the quoted and padded string
  \<^verbatim>\<open>space quote 5 3 quote space\<close> mapped to port 53. The program strips the quotes first:
  none is at either end of this string, so after the whitespace is stripped the quotes are
  still there, the parse fails and the program ends with the invalid-port message.
\<close>

theorem C1_padded_quoted_port_counterexample:
  "containerPorts ''web'' [[CHR 0x20, CHR 0x22, CHR ''5'', CHR ''3'', CHR 0x22, CHR 0x20]] []
     \<noteq> Inr [\<lparr>ContainerPort = 53\<rparr>] \<and>
   containerPorts ''web'' [[CHR 0x20, CHR 0x22, CHR ''5'', CHR ''3'', CHR 0x22, CHR 0x20]] []
     = Inl (InvalidPort [CHR 0x22, CHR ''5'', CHR ''3'', CHR 0x22] ''web'')"
  using portField_examples(4) ParseInt_examples(4)
  by (simp add: containerPorts_Cons del: containerPorts.simps(2))

text \<open>
  Claim C1, amended: each raw port string has its surrounding double-quote characters
  stripped, then its surrounding whitespace, then (if a colon is present) the second
  colon-separated field is taken, and the result is parsed as a base-10 signed 32-bit integer
  (an optional sign and decimal digits, with a value in the range): a failure ends the program with the invalid-port message naming the parsed text and the
  service, a success appends the value, which lies between \<open>- 2^31\<close> and \<open>2^31 - 1\<close> and is what
  the \<^verbatim>\<open>int32\<close> port reads as. In particular \<^verbatim>\<open>8080:80\<close> and \<^verbatim>\<open>80\<close> map to 80, the string
  \<^verbatim>\<open>quote space 5 3 space quote\<close> (padding inside the quotes) maps to 53, the string
  \<^verbatim>\<open>space quote 5 3 quote space\<close> (padding outside the quotes) and \<^verbatim>\<open>abc\<close> are invalid ports.
\<close>

theorem C1_port_mapping:
  "containerPorts name (port # rest) ports =
     (case ParseInt (portField port) of
        None \<Rightarrow> Inl (InvalidPort (portField port) name)
      | Some n \<Rightarrow> containerPorts name rest (ports @ [\<lparr>ContainerPort = of_int n\<rparr>])) \<and>
   portField port =
     (if CHR '':'' \<in> set (TrimSpace (stripQuotes port))
      then Split (TrimSpace (stripQuotes port)) (CHR '':'') ! 1
      else TrimSpace (stripQuotes port)) \<and>
   ParseInt (portField port) = int32Decimal (portField port) \<and>
   (\<forall>n. ParseInt (portField port) = Some n \<longrightarrow>
      - (2 ^ 31) \<le> n \<and> n < 2 ^ 31 \<and> sint (of_int n :: int32) = n) \<and>
   containerPorts name [''8080:80''] [] = Inr [\<lparr>ContainerPort = 80\<rparr>] \<and>
   containerPorts name [''80''] [] = Inr [\<lparr>ContainerPort = 80\<rparr>] \<and>
   containerPorts name [[CHR 0x22, CHR 0x20, CHR ''5'', CHR ''3'', CHR 0x20, CHR 0x22]] []
     = Inr [\<lparr>ContainerPort = 53\<rparr>] \<and>
   containerPorts name [[CHR 0x20, CHR 0x22, CHR ''5'', CHR ''3'', CHR 0x22, CHR 0x20]] []
     = Inl (InvalidPort [CHR 0x22, CHR ''5'', CHR ''3'', CHR 0x22] name) \<and>
   containerPorts name [''abc''] [] = Inl (InvalidPort ''abc'' name)"
proof -
  have field: "portField port =
     (if CHR '':'' \<in> set (TrimSpace (stripQuotes port))
      then Split (TrimSpace (stripQuotes port)) (CHR '':'') ! 1
      else TrimSpace (stripQuotes port))"
    using Split_two [of "CHR '':''" "TrimSpace (stripQuotes port)"]
    by (auto simp: portField_def Let_def)
  have range: "\<forall>n. ParseInt (portField port) = Some n \<longrightarrow>
      - (2 ^ 31) \<le> n \<and> n < 2 ^ 31 \<and> sint (of_int n :: int32) = n"
    using ParseInt_range [of "portField port"] sint_ParseInt [of "portField port"] by auto
  have ex: "containerPorts name [''8080:80''] [] = Inr [\<lparr>ContainerPort = 80\<rparr>]"
    "containerPorts name [''80''] [] = Inr [\<lparr>ContainerPort = 80\<rparr>]"
    "containerPorts name [[CHR 0x22, CHR 0x20, CHR ''5'', CHR ''3'', CHR 0x20, CHR 0x22]] []
       = Inr [\<lparr>ContainerPort = 53\<rparr>]"
    "containerPorts name [[CHR 0x20, CHR 0x22, CHR ''5'', CHR ''3'', CHR 0x22, CHR 0x20]] []
       = Inl (InvalidPort [CHR 0x22, CHR ''5'', CHR ''3'', CHR 0x22] name)"
    "containerPorts name [''abc''] [] = Inl (InvalidPort ''abc'' name)"
    using portField_examples ParseInt_examples
    by (simp_all add: containerPorts_Cons del: containerPorts.simps(2))
  have spec: "ParseInt (portField port) = int32Decimal (portField port)"
    by (rule ParseInt_int32Decimal)
  show ?thesis
    by (intro conjI) (rule containerPorts_Cons field spec range ex)+
qed

text \<open>The amended claim C1 at the service \<^verbatim>\<open>web\<close> and the port \<^verbatim>\<open>8080:80\<close>.\<close>

theorem C1_port_mapping_witness:
  "ParseInt (portField ''8080:80'') = Some 80 \<and>
   - (2 ^ 31) \<le> (80 :: int) \<and> (80 :: int) < 2 ^ 31 \<and> sint (of_int 80 :: int32) = 80 \<and>
   containerPorts ''web'' [''8080:80'', ''80''] [\<lparr>ContainerPort = 1\<rparr>]
     = containerPorts ''web'' [''80''] [\<lparr>ContainerPort = 1\<rparr>, \<lparr>ContainerPort = 80\<rparr>]"
proof -
  have h: "ParseInt (portField ''8080:80'') = Some 80" by code_simp
  from C1_port_mapping [of "''web''" "''8080:80''" "[''80'']" "[\<lparr>ContainerPort = 1\<rparr>]"] h
  show ?thesis by simp
qed

text \<open>
  Claim C9: when the port string, its quotes and whitespace stripped, contains a colon, the
  split on the colon has at least two fields and the port mapping parses the field of index 1,
  which is the text between the first colon and the second (or the end); what follows the
  second colon is ignored. So \<^verbatim>\<open>a:b:c\<close> is the invalid port \<^verbatim>\<open>b\<close>, and
  \<^verbatim>\<open>127.0.0.1:8080:80\<close> is the port 8080.
\<close>

theorem C9_port_second_field:
  "(CHR '':'' \<in> set (TrimSpace (Trim port [CHR 0x22])) \<longrightarrow>
      2 \<le> length (Split (TrimSpace (Trim port [CHR 0x22])) (CHR '':'')) \<and>
      Split (TrimSpace (Trim port [CHR 0x22])) (CHR '':'') ! 1
        = secondField (CHR '':'') (TrimSpace (Trim port [CHR 0x22])) \<and>
      containerPorts name (port # rest) ports =
        (case ParseInt (Split (TrimSpace (Trim port [CHR 0x22])) (CHR '':'') ! 1) of
           None \<Rightarrow>
             Inl (InvalidPort (Split (TrimSpace (Trim port [CHR 0x22])) (CHR '':'') ! 1) name)
         | Some n \<Rightarrow> containerPorts name rest (ports @ [\<lparr>ContainerPort = of_int n\<rparr>]))) \<and>
   (CHR '':'' \<notin> set a \<and> CHR '':'' \<notin> set b \<longrightarrow>
      secondField (CHR '':'') (a @ CHR '':'' # b @ CHR '':'' # c) = b) \<and>
   containerPorts name [''a:b:c''] [] = Inl (InvalidPort ''b'' name) \<and>
   containerPorts name [''127.0.0.1:8080:80''] [] = Inr [\<lparr>ContainerPort = 8080\<rparr>]"
proof -
  let ?cleaned = "TrimSpace (Trim port [CHR 0x22])"
  have general: "2 \<le> length (Split ?cleaned (CHR '':'')) \<and>
      Split ?cleaned (CHR '':'') ! 1 = secondField (CHR '':'') ?cleaned \<and>
      containerPorts name (port # rest) ports =
        (case ParseInt (Split ?cleaned (CHR '':'') ! 1) of
           None \<Rightarrow> Inl (InvalidPort (Split ?cleaned (CHR '':'') ! 1) name)
         | Some n \<Rightarrow> containerPorts name rest (ports @ [\<lparr>ContainerPort = of_int n\<rparr>]))"
    if colon: "CHR '':'' \<in> set ?cleaned"
  proof -
    from colon have field: "portField port = Split ?cleaned (CHR '':'') ! 1"
      by (simp add: portField_def Let_def Split_nth_1 Trim_quote)
    from colon have "2 \<le> length (Split ?cleaned (CHR '':''))" by (simp add: Split_two_iff)
    moreover from colon
    have "Split ?cleaned (CHR '':'') ! 1 = secondField (CHR '':'') ?cleaned"
      by (simp add: Split_nth_1)
    moreover note containerPorts_Cons [of name port rest ports, unfolded field]
    ultimately show ?thesis by (intro conjI)
  qed
  have later: "secondField (CHR '':'') (a @ CHR '':'' # b @ CHR '':'' # c) = b"
    if "CHR '':'' \<notin> set a \<and> CHR '':'' \<notin> set b"
    using that by (simp add: secondField_append)
  have ex: "containerPorts name [''a:b:c''] [] = Inl (InvalidPort ''b'' name)"
    "containerPorts name [''127.0.0.1:8080:80''] [] = Inr [\<lparr>ContainerPort = 8080\<rparr>]"
    using portField_examples ParseInt_examples
    by (simp_all add: containerPorts_Cons del: containerPorts.simps(2))
  from general later ex show ?thesis by blast
qed

text \<open>Claim C9 at the port \<^verbatim>\<open>a:b:c\<close> of the service \<^verbatim>\<open>web\<close>.\<close>

theorem C9_port_second_field_witness:
  "CHR '':'' \<in> set (TrimSpace (Trim ''a:b:c'' [CHR 0x22])) \<and>
   CHR '':'' \<notin> set ''a'' \<and> CHR '':'' \<notin> set ''b'' \<and>
   Split (TrimSpace (Trim ''a:b:c'' [CHR 0x22])) (CHR '':'') ! 1 = ''b'' \<and>
   secondField (CHR '':'') ''a:b:c'' = ''b'' \<and>
   containerPorts ''web'' [''a:b:c'', ''80''] [] = Inl (InvalidPort ''b'' ''web'')"
proof -
  have clean: "TrimSpace (Trim ''a:b:c'' [CHR 0x22]) = ''a:b:c''" by code_simp
  have sf: "secondField (CHR '':'') ''a:b:c'' = ''b''" by code_simp
  have pi: "ParseInt ''b'' = None" by code_simp
  from C9_port_second_field [of "''a:b:c''" "''web''" "[''80'']" "[]" "''a''" "''b''" "''c''"]
  show ?thesis by (simp add: clean sf pi)
qed

section \<open>The environment mapping\<close>

text \<open>
  Claim C2: the environment loop never fails. Its result is the list it started with,
  followed, in the order of the source, by one pair for each entry that contains \<^verbatim>\<open>=\<close>: the
  fields of index 0 and 1 of the entry's split on \<^verbatim>\<open>=\<close>, which has at least two fields. An
  entry without \<^verbatim>\<open>=\<close> leaves the list as it is. So \<^verbatim>\<open>KEY=VALUE\<close> gives (KEY, VALUE),
  \<^verbatim>\<open>KEY=A=B\<close> gives (KEY, A), and \<^verbatim>\<open>NOEQUALS\<close> gives nothing.
\<close>

theorem C2_env_mapping:
  "containerEnv envs acc =
     Inr (acc @ map (\<lambda>env. \<lparr>EnvName = Split env (CHR ''='') ! 0,
                               EnvValue = Split env (CHR ''='') ! 1\<rparr>)
                  (filter (\<lambda>env. CHR ''='' \<in> set env) envs)) \<and>
   (CHR ''='' \<in> set env \<longrightarrow>
      2 \<le> length (Split env (CHR ''='')) \<and>
      containerEnv (env # rest) acc =
        containerEnv rest (acc @ [\<lparr>EnvName = Split env (CHR ''='') ! 0,
                                    EnvValue = Split env (CHR ''='') ! 1\<rparr>])) \<and>
   (CHR ''='' \<notin> set env \<longrightarrow> containerEnv (env # rest) acc = containerEnv rest acc) \<and>
   containerEnv [''KEY=VALUE''] [] = Inr [\<lparr>EnvName = ''KEY'', EnvValue = ''VALUE''\<rparr>] \<and>
   containerEnv [''KEY=A=B''] [] = Inr [\<lparr>EnvName = ''KEY'', EnvValue = ''A''\<rparr>] \<and>
   containerEnv [''NOEQUALS''] acc = Inr acc \<and>
   containerEnv [''B=2'', ''NOEQUALS'', ''A=1''] []
     = Inr [\<lparr>EnvName = ''B'', EnvValue = ''2''\<rparr>, \<lparr>EnvName = ''A'', EnvValue = ''1''\<rparr>]"
proof -
  have "map (\<lambda>env. \<lparr>EnvName = Split env (CHR ''='') ! 0, EnvValue = Split env (CHR ''='') ! 1\<rparr>)
          (filter (\<lambda>env. CHR ''='' \<in> set env) envs)
        = map envOf (filter (\<lambda>env. CHR ''='' \<in> set env) envs)"
    by (rule map_cong) (auto simp: envOf_def Split_nth_0 Split_nth_1)
  then have whole: "containerEnv envs acc =
     Inr (acc @ map (\<lambda>env. \<lparr>EnvName = Split env (CHR ''='') ! 0,
                               EnvValue = Split env (CHR ''='') ! 1\<rparr>)
                  (filter (\<lambda>env. CHR ''='' \<in> set env) envs))"
    by (simp add: containerEnv_eq)
  have kept: "2 \<le> length (Split env (CHR ''='')) \<and>
      containerEnv (env # rest) acc =
        containerEnv rest (acc @ [\<lparr>EnvName = Split env (CHR ''='') ! 0,
                                    EnvValue = Split env (CHR ''='') ! 1\<rparr>])"
    if "CHR ''='' \<in> set env"
    using that by (simp add: Split_two_iff containerEnv_eq envOf_def Split_nth_0 Split_nth_1)
  have dropped: "containerEnv (env # rest) acc = containerEnv rest acc"
    if "CHR ''='' \<notin> set env"
    using that by (simp add: Contains_def)
  have ex: "containerEnv [''KEY=VALUE''] [] = Inr [\<lparr>EnvName = ''KEY'', EnvValue = ''VALUE''\<rparr>]"
    "containerEnv [''KEY=A=B''] [] = Inr [\<lparr>EnvName = ''KEY'', EnvValue = ''A''\<rparr>]"
    "containerEnv [''B=2'', ''NOEQUALS'', ''A=1''] []
       = Inr [\<lparr>EnvName = ''B'', EnvValue = ''2''\<rparr>, \<lparr>EnvName = ''A'', EnvValue = ''1''\<rparr>]"
    by code_simp+
  have ex2: "containerEnv [''NOEQUALS''] acc = Inr acc"
    by (simp add: Contains_def)
  from whole kept dropped ex ex2 show ?thesis by blast
qed

text \<open>Claim C2 at the entries \<^verbatim>\<open>KEY=A=B\<close> and \<^verbatim>\<open>NOEQUALS\<close>, in both orders.\<close>

theorem C2_env_mapping_witness:
  "CHR ''='' \<in> set ''KEY=A=B'' \<and> CHR ''='' \<notin> set ''NOEQUALS'' \<and>
   Split ''KEY=A=B'' (CHR ''='') = [''KEY'', ''A'', ''B''] \<and>
   containerEnv [''KEY=A=B'', ''NOEQUALS''] [] = Inr [\<lparr>EnvName = ''KEY'', EnvValue = ''A''\<rparr>] \<and>
   containerEnv [''NOEQUALS'', ''KEY=A=B''] [] = Inr [\<lparr>EnvName = ''KEY'', EnvValue = ''A''\<rparr>]"
proof -
  have sp: "Split ''KEY=A=B'' (CHR ''='') = [''KEY'', ''A'', ''B'']" by code_simp
  from C2_env_mapping [of "[''KEY=A=B'', ''NOEQUALS'']" "[]" "''KEY=A=B''" "[''NOEQUALS'']"]
    C2_env_mapping [of "[''NOEQUALS'', ''KEY=A=B'']" "[]" "''NOEQUALS''" "[''KEY=A=B'']"]
  show ?thesis by (simp add: sp)
qed

text \<open>
  Claim C10: an entry that begins with \<^verbatim>\<open>=\<close> is kept: the loop appends the pair of the empty
  key and the text between that first \<^verbatim>\<open>=\<close> and the next one (or the end). So \<^verbatim>\<open>=VALUE\<close>
  gives the pair of the empty string and \<^verbatim>\<open>VALUE\<close>.
\<close>

theorem C10_env_leading_separator:
  "containerEnv ((CHR ''='' # v) # rest) acc =
     containerEnv rest (acc @ [\<lparr>EnvName = [], EnvValue = takeWhile (\<lambda>c. c \<noteq> CHR ''='') v\<rparr>]) \<and>
   containerEnv [''=VALUE''] [] = Inr [\<lparr>EnvName = [], EnvValue = ''VALUE''\<rparr>] \<and>
   containerEnv [''=A=B''] acc = Inr (acc @ [\<lparr>EnvName = [], EnvValue = ''A''\<rparr>])"
proof -
  have step: "containerEnv ((CHR ''='' # v) # rest) acc =
     containerEnv rest (acc @ [\<lparr>EnvName = [], EnvValue = takeWhile (\<lambda>c. c \<noteq> CHR ''='') v\<rparr>])"
    for v rest acc
    by (simp add: containerEnv_eq envOf_def firstField_def secondField_def)
  have "containerEnv [''=VALUE''] [] = Inr [\<lparr>EnvName = [], EnvValue = ''VALUE''\<rparr>]"
    by code_simp
  moreover have "containerEnv [''=A=B''] acc = Inr (acc @ [\<lparr>EnvName = [], EnvValue = ''A''\<rparr>])"
    by (simp add: containerEnv_eq envOf_def firstField_def secondField_def)
  ultimately show ?thesis using step by blast
qed

section \<open>The replica set of a service\<close>

lemma replicaSet_Inr:
  "replicaSet name service = Inr rs \<Longrightarrow>
     \<exists>ports mounts vols policy.
       containerPorts name (Ports service) [] = Inr ports \<and>
       containerVolumes (Volumes service) [] [] = Inr (mounts, vols) \<and>
       restartPolicy name (Restart service) = Inr policy \<and>
       rs = descriptor name service ports
              (map envOf (filter (\<lambda>e. CHR ''='' \<in> set e) (Environment service))) mounts vols policy"
  by (auto simp: replicaSet_eq split: sum.splits prod.splits)

lemma web_loops:
  "containerPorts ''web'' [''8080:80''] [] = Inr [\<lparr>ContainerPort = 80\<rparr>]"
  "containerVolumes [''/host/data:/data:ro''] [] []
     = Inr ([\<lparr>MountName = ''hostdata'', ReadOnly = True, MountPath = ''/data''\<rparr>],
            [\<lparr>VolumeName = ''hostdata'', HostPath = ''/host/data''\<rparr>])"
  "envOf ''DEBUG=true'' = \<lparr>EnvName = ''DEBUG'', EnvValue = ''true''\<rparr>"
  by code_simp+

lemma web_replicaSet: "replicaSet ''web'' web = Inr webReplicaSet"
  by (simp add: replicaSet_eq web_def webReplicaSet_def web_loops restartPolicy_def
        del: containerPorts.simps(2) containerVolumes.simps(2))

lemma api_replicaSet: "replicaSet ''api'' api = Inl (InvalidPort ''notanumber'' ''api'')"
proof -
  have "containerPorts ''api'' [''notanumber''] [] = Inl (InvalidPort ''notanumber'' ''api'')"
    by code_simp
  then show ?thesis by (simp add: replicaSet_eq api_def del: containerPorts.simps(2))
qed

lemma store_loops:
  "containerPorts ''store'' [''5432:5432'', ''9187''] []
     = Inr [\<lparr>ContainerPort = 5432\<rparr>, \<lparr>ContainerPort = 9187\<rparr>]"
  "containerVolumes [''/data/db:/var/lib/db'', ''/etc/conf.d:/conf:ro''] [] []
     = Inr ([\<lparr>MountName = ''datadb'', ReadOnly = False, MountPath = ''/var/lib/db''\<rparr>,
             \<lparr>MountName = ''etcconf.d'', ReadOnly = True, MountPath = ''/conf''\<rparr>],
            [\<lparr>VolumeName = ''datadb'', HostPath = ''/data/db''\<rparr>,
             \<lparr>VolumeName = ''etcconf.d'', HostPath = ''/etc/conf.d''\<rparr>])"
  "envOf ''PGDATA=/var/lib/db'' = \<lparr>EnvName = ''PGDATA'', EnvValue = ''/var/lib/db''\<rparr>"
  by code_simp+

lemma store_replicaSet: "replicaSet ''store'' store = Inr storeReplicaSet"
  by (simp add: replicaSet_eq store_def storeReplicaSet_def store_loops restartPolicy_def
        del: containerPorts.simps(2) containerVolumes.simps(2))

lemma replicaSet_ports_fail:
  "containerPorts name (Ports service) [] = Inl e \<Longrightarrow> replicaSet name service = Inl e"
  by (simp add: replicaSet_eq)

lemma replicaSet_restart_fail:
  "restartPolicy name (Restart service) = Inl e \<Longrightarrow>
     containerPorts name (Ports service) [] = Inr ports \<Longrightarrow>
     containerVolumes (Volumes service) [] [] = Inr r \<Longrightarrow>
     replicaSet name service = Inl e"
  by (simp add: replicaSet_eq split: prod.splits)

lemma replicaSet_restart_abort:
  "restartPolicy name (Restart service) = Inl e \<Longrightarrow> \<exists>e'. replicaSet name service = Inl e'"
  by (simp add: replicaSet_eq split: sum.splits prod.splits)

lemma replicaSet_volumes:
  assumes "replicaSet name service = Inr rs"
  shows "(\<forall>v \<in> set (Volumes service). CHR '':'' \<in> set v) \<and>
         (\<exists>c. Containers (PodSpec (Template (Spec rs))) = [c] \<and>
              VolumeMounts c = map mountOf (Volumes service) \<and>
              length (ContainerPorts c) = length (Ports service)) \<and>
         PodVolumes (PodSpec (Template (Spec rs))) = map volumeOf (Volumes service)"
proof -
  from replicaSet_Inr [OF assms] obtain ports envs mounts vols policy
    where p: "containerPorts name (Ports service) [] = Inr ports"
      and v: "containerVolumes (Volumes service) [] [] = Inr (mounts, vols)"
      and rs: "rs = descriptor name service ports envs mounts vols policy"
    by blast
  from p have "length ports = length (Ports service)"
    by (simp add: containerPorts_Inr_iff)
  moreover from v have "(\<forall>v \<in> set (Volumes service). CHR '':'' \<in> set v) \<and>
      mounts = map mountOf (Volumes service) \<and> vols = map volumeOf (Volumes service)"
    by (simp add: containerVolumes_Inr_iff)
  ultimately show ?thesis using rs by (simp add: descriptor_def)
qed

lemma volume_example:
  "containerVolumes [''/data/db:/var/lib/db''] [] []
     = Inr ([\<lparr>MountName = ''datadb'', ReadOnly = False, MountPath = ''/var/lib/db''\<rparr>],
            [\<lparr>VolumeName = ''datadb'', HostPath = ''/data/db''\<rparr>])"
  by code_simp

text \<open>
  Claim C6: whatever the fields of the service hold, the replica set produced for it is named
  like the service, has as labels exactly the one entry \<^verbatim>\<open>service\<close> with the service name (on
  the replica set and on its pod template), has the replica count 1, and has exactly one
  container, whose name is the service name and whose image and command are those of the
  service.
\<close>

theorem C6_descriptor_skeleton:
  assumes "replicaSet name service = Inr rs"
  shows "Name (Meta rs) = name \<and>
         Labels (Meta rs) = [''service'' \<mapsto> name] \<and>
         dom (Labels (Meta rs)) = {''service''} \<and>
         Labels (TemplateMeta (Template (Spec rs))) = [''service'' \<mapsto> name] \<and>
         Replicas (Spec rs) = 1 \<and>
         (\<exists>c. Containers (PodSpec (Template (Spec rs))) = [c] \<and>
              ContainerName c = name \<and>
              ContainerImage c = Image service \<and>
              ContainerCommand c = Command service)"
proof -
  from replicaSet_Inr [OF assms] obtain ports envs mounts vols policy
    where "rs = descriptor name service ports envs mounts vols policy"
    by blast
  then show ?thesis by (simp add: descriptor_def)
qed

text \<open>Claim C6 at the service \<^verbatim>\<open>web\<close> of the end-to-end scenario.\<close>

theorem C6_descriptor_skeleton_witness:
  "replicaSet ''web'' web = Inr webReplicaSet \<and>
   Name (Meta webReplicaSet) = ''web'' \<and>
   Labels (Meta webReplicaSet) = [''service'' \<mapsto> ''web''] \<and>
   dom (Labels (Meta webReplicaSet)) = {''service''} \<and>
   Replicas (Spec webReplicaSet) = 1 \<and>
   (\<exists>c. Containers (PodSpec (Template (Spec webReplicaSet))) = [c] \<and>
        ContainerName c = ''web'' \<and> ContainerImage c = ''nginx'' \<and> ContainerCommand c = [])"
proof -
  have img: "Image web = ''nginx''" "Command web = []" by (simp_all add: web_def)
  from C6_descriptor_skeleton [OF web_replicaSet] web_replicaSet show ?thesis
    by (simp add: img)
qed

section \<open>The restart policy\<close>

text \<open>
  Claim C3: the restart-policy switch maps the empty string and \<^verbatim>\<open>always\<close> to Always, \<^verbatim>\<open>no\<close>
  to Never and \<^verbatim>\<open>on-failure\<close> to OnFailure; every other value, \<^verbatim>\<open>Always\<close> with a capital
  among them, ends the program with the unknown-restart-policy message naming the value and
  the service. A replica set that is produced carries the policy the table gives, one of the
  three. A service with a value outside the table produces no replica set: the program
  ends, with the unknown-restart-policy message once the port and volume loops before the
  switch have gone through.
\<close>

theorem C3_restart_policy:
  "restartPolicy name [] = Inr RestartPolicyAlways \<and>
   restartPolicy name ''always'' = Inr RestartPolicyAlways \<and>
   restartPolicy name ''no'' = Inr RestartPolicyNever \<and>
   restartPolicy name ''on-failure'' = Inr RestartPolicyOnFailure \<and>
   restartPolicy name ''Always'' = Inl (UnknownRestartPolicy ''Always'' name) \<and>
   (restart \<notin> {[], ''always'', ''no'', ''on-failure''} \<longrightarrow>
      restartPolicy name restart = Inl (UnknownRestartPolicy restart name)) \<and>
   (replicaSet name service = Inr rs \<longrightarrow>
      Restart service \<in> {[], ''always'', ''no'', ''on-failure''} \<and>
      restartPolicy name (Restart service) = Inr (RestartPolicy (PodSpec (Template (Spec rs)))) \<and>
      RestartPolicy (PodSpec (Template (Spec rs)))
        \<in> {RestartPolicyAlways, RestartPolicyNever, RestartPolicyOnFailure}) \<and>
   (Restart failing \<notin> {[], ''always'', ''no'', ''on-failure''} \<longrightarrow>
      (\<exists>e. replicaSet name failing = Inl e) \<and>
      (\<forall>ports r. containerPorts name (Ports failing) [] = Inr ports \<and>
                 containerVolumes (Volumes failing) [] [] = Inr r \<longrightarrow>
         replicaSet name failing = Inl (UnknownRestartPolicy (Restart failing) name)))"
proof -
  have table: "restartPolicy name [] = Inr RestartPolicyAlways"
    "restartPolicy name ''always'' = Inr RestartPolicyAlways"
    "restartPolicy name ''no'' = Inr RestartPolicyNever"
    "restartPolicy name ''on-failure'' = Inr RestartPolicyOnFailure"
    "restartPolicy name ''Always'' = Inl (UnknownRestartPolicy ''Always'' name)"
    by (simp_all add: restartPolicy_def)
  have other: "restartPolicy name r = Inl (UnknownRestartPolicy r name)"
    if "r \<notin> {[], ''always'', ''no'', ''on-failure''}" for r
    using that by (simp add: restartPolicy_def)
  have ok: "Restart service \<in> {[], ''always'', ''no'', ''on-failure''} \<and>
      restartPolicy name (Restart service) = Inr (RestartPolicy (PodSpec (Template (Spec rs)))) \<and>
      RestartPolicy (PodSpec (Template (Spec rs)))
        \<in> {RestartPolicyAlways, RestartPolicyNever, RestartPolicyOnFailure}"
    if h: "replicaSet name service = Inr rs"
  proof -
    from replicaSet_Inr [OF h] obtain ports envs mounts vols policy
      where p: "restartPolicy name (Restart service) = Inr policy"
        and rs: "rs = descriptor name service ports envs mounts vols policy"
      by blast
    from rs have "RestartPolicy (PodSpec (Template (Spec rs))) = policy"
      by (simp add: descriptor_def)
    with p show ?thesis by (auto simp: restartPolicy_def split: if_splits)
  qed
  have bad: "(\<exists>e. replicaSet name failing = Inl e) \<and>
      (\<forall>ports r. containerPorts name (Ports failing) [] = Inr ports \<and>
                 containerVolumes (Volumes failing) [] [] = Inr r \<longrightarrow>
         replicaSet name failing = Inl (UnknownRestartPolicy (Restart failing) name))"
    if "Restart failing \<notin> {[], ''always'', ''no'', ''on-failure''}"
    using other [OF that] replicaSet_restart_abort replicaSet_restart_fail by blast
  from table other ok bad show ?thesis by blast
qed

text \<open>
  Claim C3 at the service \<^verbatim>\<open>web\<close>, with its own restart value and with the value
  \<^verbatim>\<open>unless-stopped\<close>.
\<close>

theorem C3_restart_policy_witness:
  "''unless-stopped'' \<notin> {[], ''always'', ''no'', ''on-failure''} \<and>
   restartPolicy ''web'' ''unless-stopped'' = Inl (UnknownRestartPolicy ''unless-stopped'' ''web'') \<and>
   replicaSet ''web'' web = Inr webReplicaSet \<and>
   Restart web = [] \<and>
   RestartPolicy (PodSpec (Template (Spec webReplicaSet))) = RestartPolicyAlways \<and>
   Restart (web\<lparr>Restart := ''unless-stopped''\<rparr>) \<notin> {[], ''always'', ''no'', ''on-failure''} \<and>
   replicaSet ''web'' (web\<lparr>Restart := ''unless-stopped''\<rparr>)
     = Inl (UnknownRestartPolicy ''unless-stopped'' ''web'')"
proof -
  have loops:
    "containerPorts ''web'' (Ports (web\<lparr>Restart := ''unless-stopped''\<rparr>)) []
       = Inr [\<lparr>ContainerPort = 80\<rparr>]"
    "containerVolumes (Volumes (web\<lparr>Restart := ''unless-stopped''\<rparr>)) [] []
       = Inr ([\<lparr>MountName = ''hostdata'', ReadOnly = True, MountPath = ''/data''\<rparr>],
              [\<lparr>VolumeName = ''hostdata'', HostPath = ''/host/data''\<rparr>])"
    by (simp_all add: web_def web_loops del: containerPorts.simps(2) containerVolumes.simps(2))
  have r: "Restart web = []" "Restart (web\<lparr>Restart := ''unless-stopped''\<rparr>) = ''unless-stopped''"
    by (simp_all add: web_def)
  have pol: "RestartPolicy (PodSpec (Template (Spec webReplicaSet))) = RestartPolicyAlways"
    by (simp add: webReplicaSet_def descriptor_def)
  from C3_restart_policy [of "''web''" "''unless-stopped''" web webReplicaSet
      "web\<lparr>Restart := ''unless-stopped''\<rparr>"] web_replicaSet loops r pol
  show ?thesis by simp
qed

section \<open>The volume mapping\<close>

text \<open>
  Claim C4: in a replica set that is produced, the volume mounts and the volumes are as many
  as the source volume entries, and for every index \<open>i\<close> of the source list the volume and the
  volume mount at \<open>i\<close> belong to the source entry at \<open>i\<close>, which has at least two
  colon-separated fields. Both carry the same name, the entry's first field (the host path)
  with every \<^verbatim>\<open>/\<close> deleted; the volume carries the host path, the mount the second field
  (the container path). So \<^verbatim>\<open>/data/db\<close> gives the name \<^verbatim>\<open>datadb\<close>.
\<close>

theorem C4_volume_names:
  assumes "replicaSet name service = Inr rs"
    and "i < length (Volumes service)"
  shows "(\<exists>c. Containers (PodSpec (Template (Spec rs))) = [c] \<and>
              length (VolumeMounts c) = length (Volumes service) \<and>
              length (PodVolumes (PodSpec (Template (Spec rs)))) = length (Volumes service) \<and>
              2 \<le> length (Split (Volumes service ! i) (CHR '':'')) \<and>
              MountName (VolumeMounts c ! i)
                = VolumeName (PodVolumes (PodSpec (Template (Spec rs))) ! i) \<and>
              VolumeName (PodVolumes (PodSpec (Template (Spec rs))) ! i)
                = filter (\<lambda>ch. ch \<noteq> CHR ''/'') (Split (Volumes service ! i) (CHR '':'') ! 0) \<and>
              HostPath (PodVolumes (PodSpec (Template (Spec rs))) ! i)
                = Split (Volumes service ! i) (CHR '':'') ! 0 \<and>
              MountPath (VolumeMounts c ! i) = Split (Volumes service ! i) (CHR '':'') ! 1) \<and>
         containerVolumes [''/data/db:/var/lib/db''] [] []
           = Inr ([\<lparr>MountName = ''datadb'', ReadOnly = False, MountPath = ''/var/lib/db''\<rparr>],
                  [\<lparr>VolumeName = ''datadb'', HostPath = ''/data/db''\<rparr>])"
proof -
  from replicaSet_volumes [OF assms(1)] obtain c
    where colons: "\<forall>v \<in> set (Volumes service). CHR '':'' \<in> set v"
      and c: "Containers (PodSpec (Template (Spec rs))) = [c]"
      and mounts: "VolumeMounts c = map mountOf (Volumes service)"
      and vols: "PodVolumes (PodSpec (Template (Spec rs))) = map volumeOf (Volumes service)"
    by blast
  note i = assms(2)
  with colons have colon: "CHR '':'' \<in> set (Volumes service ! i)" by simp
  then have two: "2 \<le> length (Split (Volumes service ! i) (CHR '':''))"
    by (simp add: Split_two_iff)
  from colon have f1: "Split (Volumes service ! i) (CHR '':'') ! 1
      = secondField (CHR '':'') (Volumes service ! i)"
    by (simp add: Split_nth_1)
  have f0: "Split (Volumes service ! i) (CHR '':'') ! 0 = firstField (CHR '':'') (Volumes service ! i)"
    by (rule Split_nth_0)
  from mounts vols have len: "length (VolumeMounts c) = length (Volumes service)"
    "length (PodVolumes (PodSpec (Template (Spec rs)))) = length (Volumes service)"
    by simp_all
  from i mounts have m: "VolumeMounts c ! i = mountOf (Volumes service ! i)" by simp
  from i vols have v: "PodVolumes (PodSpec (Template (Spec rs))) ! i = volumeOf (Volumes service ! i)"
    by simp
  have "length (VolumeMounts c) = length (Volumes service) \<and>
        length (PodVolumes (PodSpec (Template (Spec rs)))) = length (Volumes service) \<and>
        2 \<le> length (Split (Volumes service ! i) (CHR '':'')) \<and>
        MountName (VolumeMounts c ! i)
          = VolumeName (PodVolumes (PodSpec (Template (Spec rs))) ! i) \<and>
        VolumeName (PodVolumes (PodSpec (Template (Spec rs))) ! i)
          = filter (\<lambda>ch. ch \<noteq> CHR ''/'') (Split (Volumes service ! i) (CHR '':'') ! 0) \<and>
        HostPath (PodVolumes (PodSpec (Template (Spec rs))) ! i)
          = Split (Volumes service ! i) (CHR '':'') ! 0 \<and>
        MountPath (VolumeMounts c ! i) = Split (Volumes service ! i) (CHR '':'') ! 1"
    unfolding m v f0 f1 using len two
    by (simp add: mountOf_def volumeOf_def mountName_def)
  with c volume_example show ?thesis by blast
qed

text \<open>Claim C4 at both volumes of the service \<^verbatim>\<open>store\<close>, the second one first.\<close>

theorem C4_volume_names_witness:
  "replicaSet ''store'' store = Inr storeReplicaSet \<and>
   (1::nat) < length (Volumes store) \<and>
   Volumes store ! 1 = ''/etc/conf.d:/conf:ro'' \<and>
   (\<exists>c. Containers (PodSpec (Template (Spec storeReplicaSet))) = [c] \<and>
        length (VolumeMounts c) = 2 \<and>
        length (PodVolumes (PodSpec (Template (Spec storeReplicaSet)))) = 2 \<and>
        MountName (VolumeMounts c ! 1) = ''etcconf.d'' \<and>
        VolumeName (PodVolumes (PodSpec (Template (Spec storeReplicaSet))) ! 1) = ''etcconf.d'' \<and>
        HostPath (PodVolumes (PodSpec (Template (Spec storeReplicaSet))) ! 1) = ''/etc/conf.d'' \<and>
        MountPath (VolumeMounts c ! 1) = ''/conf'') \<and>
   (0::nat) < length (Volumes store) \<and>
   Volumes store ! 0 = ''/data/db:/var/lib/db'' \<and>
   (\<exists>c. Containers (PodSpec (Template (Spec storeReplicaSet))) = [c] \<and>
        MountName (VolumeMounts c ! 0) = ''datadb'' \<and>
        VolumeName (PodVolumes (PodSpec (Template (Spec storeReplicaSet))) ! 0) = ''datadb'' \<and>
        HostPath (PodVolumes (PodSpec (Template (Spec storeReplicaSet))) ! 0) = ''/data/db'' \<and>
        MountPath (VolumeMounts c ! 0) = ''/var/lib/db'')"
proof -
  have len: "(1::nat) < length (Volumes store)" "(0::nat) < length (Volumes store)"
    by (simp_all add: store_def)
  have src: "Volumes store ! 1 = ''/etc/conf.d:/conf:ro''" "Volumes store ! 0 = ''/data/db:/var/lib/db''"
    "length (Volumes store) = 2"
    by (simp_all add: store_def)
  have sp: "Split ''/etc/conf.d:/conf:ro'' (CHR '':'') = [''/etc/conf.d'', ''/conf'', ''ro'']"
    "Split ''/data/db:/var/lib/db'' (CHR '':'') = [''/data/db'', ''/var/lib/db'']"
    by code_simp+
  from C4_volume_names [OF store_replicaSet len(1), THEN conjunct1] src
  have one: "\<exists>c. Containers (PodSpec (Template (Spec storeReplicaSet))) = [c] \<and>
        length (VolumeMounts c) = 2 \<and>
        length (PodVolumes (PodSpec (Template (Spec storeReplicaSet)))) = 2 \<and>
        MountName (VolumeMounts c ! 1) = ''etcconf.d'' \<and>
        VolumeName (PodVolumes (PodSpec (Template (Spec storeReplicaSet))) ! 1) = ''etcconf.d'' \<and>
        HostPath (PodVolumes (PodSpec (Template (Spec storeReplicaSet))) ! 1) = ''/etc/conf.d'' \<and>
        MountPath (VolumeMounts c ! 1) = ''/conf''"
    by (auto simp: sp)
  from C4_volume_names [OF store_replicaSet len(2), THEN conjunct1] src
  have zero: "\<exists>c. Containers (PodSpec (Template (Spec storeReplicaSet))) = [c] \<and>
        MountName (VolumeMounts c ! 0) = ''datadb'' \<and>
        VolumeName (PodVolumes (PodSpec (Template (Spec storeReplicaSet))) ! 0) = ''datadb'' \<and>
        HostPath (PodVolumes (PodSpec (Template (Spec storeReplicaSet))) ! 0) = ''/data/db'' \<and>
        MountPath (VolumeMounts c ! 0) = ''/var/lib/db''"
    by (auto simp: sp)
  from one zero store_replicaSet len src show ?thesis by blast
qed

lemma lastMode_snoc:
  "lastMode (opts @ [''ro'']) = True"
  "lastMode (opts @ [''rw'']) = False"
  "t \<noteq> ''ro'' \<Longrightarrow> t \<noteq> ''rw'' \<Longrightarrow> lastMode (opts @ [t]) = lastMode opts"
  by (simp_all add: lastMode_def)

lemma readOnly_examples:
  "containerVolumes [''/a:/b:ro''] [] []
     = Inr ([\<lparr>MountName = ''a'', ReadOnly = True, MountPath = ''/b''\<rparr>],
            [\<lparr>VolumeName = ''a'', HostPath = ''/a''\<rparr>])"
  "containerVolumes [''/a:/b:rw''] [] []
     = Inr ([\<lparr>MountName = ''a'', ReadOnly = False, MountPath = ''/b''\<rparr>],
            [\<lparr>VolumeName = ''a'', HostPath = ''/a''\<rparr>])"
  "containerVolumes [''/a:/b:ro:rw''] [] []
     = Inr ([\<lparr>MountName = ''a'', ReadOnly = False, MountPath = ''/b''\<rparr>],
            [\<lparr>VolumeName = ''a'', HostPath = ''/a''\<rparr>])"
  "containerVolumes [''/a:/b:rw:z:ro:RO''] [] []
     = Inr ([\<lparr>MountName = ''a'', ReadOnly = True, MountPath = ''/b''\<rparr>],
            [\<lparr>VolumeName = ''a'', HostPath = ''/a''\<rparr>])"
  by code_simp+

text \<open>
  Claim C5: a volume entry with at least two colon-separated parts yields a mount whose
  read-only flag is decided by the parts from index 2 on: false when there are none, and
  otherwise by the last of the tokens \<^verbatim>\<open>ro\<close> (true) and \<^verbatim>\<open>rw\<close> (false) among them, any
  other token being ignored. The same holds for every mount of a replica set that is
  produced. So \<^verbatim>\<open>/a:/b:ro\<close> is read-only, \<^verbatim>\<open>/a:/b:rw\<close> and \<^verbatim>\<open>/a:/b:ro:rw\<close> are not.
\<close>

theorem C5_read_only:
  "(2 \<le> length (Split v (CHR '':'')) \<longrightarrow>
      (\<exists>mount volume.
         containerVolumes (v # rest) mounts vols
           = containerVolumes rest (mounts @ [mount]) (vols @ [volume]) \<and>
         ReadOnly mount = lastMode (drop 2 (Split v (CHR '':''))) \<and>
         (length (Split v (CHR '':'')) = 2 \<longrightarrow> ReadOnly mount = False))) \<and>
   (replicaSet name service = Inr rs \<and> i < length (Volumes service) \<longrightarrow>
      (\<exists>c. Containers (PodSpec (Template (Spec rs))) = [c] \<and>
           ReadOnly (VolumeMounts c ! i)
             = lastMode (drop 2 (Split (Volumes service ! i) (CHR '':''))))) \<and>
   lastMode [] = False \<and>
   lastMode (opts @ [''ro'']) = True \<and>
   lastMode (opts @ [''rw'']) = False \<and>
   (t \<noteq> ''ro'' \<and> t \<noteq> ''rw'' \<longrightarrow> lastMode (opts @ [t]) = lastMode opts) \<and>
   containerVolumes [''/a:/b:ro''] [] []
     = Inr ([\<lparr>MountName = ''a'', ReadOnly = True, MountPath = ''/b''\<rparr>],
            [\<lparr>VolumeName = ''a'', HostPath = ''/a''\<rparr>]) \<and>
   containerVolumes [''/a:/b:rw''] [] []
     = Inr ([\<lparr>MountName = ''a'', ReadOnly = False, MountPath = ''/b''\<rparr>],
            [\<lparr>VolumeName = ''a'', HostPath = ''/a''\<rparr>]) \<and>
   containerVolumes [''/a:/b:ro:rw''] [] []
     = Inr ([\<lparr>MountName = ''a'', ReadOnly = False, MountPath = ''/b''\<rparr>],
            [\<lparr>VolumeName = ''a'', HostPath = ''/a''\<rparr>])"
proof -
  have step: "\<exists>mount volume.
         containerVolumes (v # rest) mounts vols
           = containerVolumes rest (mounts @ [mount]) (vols @ [volume]) \<and>
         ReadOnly mount = lastMode (drop 2 (Split v (CHR '':''))) \<and>
         (length (Split v (CHR '':'')) = 2 \<longrightarrow> ReadOnly mount = False)"
    if two: "2 \<le> length (Split v (CHR '':''))"
  proof -
    from two have "CHR '':'' \<in> set v" by (simp add: Split_two_iff)
    then have "containerVolumes (v # rest) mounts vols
        = containerVolumes rest (mounts @ [mountOf v]) (vols @ [volumeOf v])"
      by (rule containerVolumes_with)
    moreover have "ReadOnly (mountOf v) = lastMode (drop 2 (Split v (CHR '':'')))"
      by (simp add: mountOf_def)
    moreover have "length (Split v (CHR '':'')) = 2 \<longrightarrow> ReadOnly (mountOf v) = False"
      by (simp add: mountOf_def lastMode_Nil)
    ultimately show ?thesis by blast
  qed
  have whole: "\<exists>c. Containers (PodSpec (Template (Spec rs))) = [c] \<and>
           ReadOnly (VolumeMounts c ! i)
             = lastMode (drop 2 (Split (Volumes service ! i) (CHR '':'')))"
    if h: "replicaSet name service = Inr rs \<and> i < length (Volumes service)"
  proof -
    from h replicaSet_volumes [of name service rs] obtain c
      where c: "Containers (PodSpec (Template (Spec rs))) = [c]"
        and mounts: "VolumeMounts c = map mountOf (Volumes service)"
      by blast
    from h mounts have "ReadOnly (VolumeMounts c ! i)
        = lastMode (drop 2 (Split (Volumes service ! i) (CHR '':'')))"
      by (simp add: mountOf_def)
    with c show ?thesis by blast
  qed
  have modes: "lastMode [] = False" "lastMode (opts @ [''ro'']) = True"
    "lastMode (opts @ [''rw'']) = False"
    "t \<noteq> ''ro'' \<and> t \<noteq> ''rw'' \<longrightarrow> lastMode (opts @ [t]) = lastMode opts"
    by (simp_all add: lastMode_Nil lastMode_snoc)
  from step whole modes readOnly_examples(1,2,3)
  show ?thesis by blast
qed

text \<open>
  Claim C5 at the entry \<^verbatim>\<open>/a:/b:rw:z:ro:RO\<close> and at the only volume of the service
  \<^verbatim>\<open>web\<close>.
\<close>

theorem C5_read_only_witness:
  "Split ''/a:/b:rw:z:ro:RO'' (CHR '':'') = [''/a'', ''/b'', ''rw'', ''z'', ''ro'', ''RO''] \<and>
   lastMode [''rw'', ''z'', ''ro'', ''RO''] = True \<and>
   (\<exists>mount volume.
      containerVolumes [''/a:/b:rw:z:ro:RO''] [] [] = Inr ([mount], [volume]) \<and>
      ReadOnly mount = True) \<and>
   replicaSet ''web'' web = Inr webReplicaSet \<and> (0::nat) < length (Volumes web) \<and>
   (\<exists>c. Containers (PodSpec (Template (Spec webReplicaSet))) = [c] \<and>
        ReadOnly (VolumeMounts c ! 0) = True) \<and>
   ''RO'' \<noteq> ''ro'' \<and> ''RO'' \<noteq> ''rw'' \<and>
   lastMode ([''rw'', ''z'', ''ro''] @ [''RO'']) = lastMode [''rw'', ''z'', ''ro'']"
proof -
  have sp: "Split ''/a:/b:rw:z:ro:RO'' (CHR '':'') = [''/a'', ''/b'', ''rw'', ''z'', ''ro'', ''RO'']"
    "Split ''/host/data:/data:ro'' (CHR '':'') = [''/host/data'', ''/data'', ''ro'']"
    by code_simp+
  have lm: "lastMode [''rw'', ''z'', ''ro'', ''RO''] = True" "lastMode [''ro''] = True"
    by code_simp+
  have w: "(0::nat) < length (Volumes web)" "Volumes web ! 0 = ''/host/data:/data:ro''"
    by (simp_all add: web_def)
  from C5_read_only [of "''/a:/b:rw:z:ro:RO''" "[]" "[]" "[]" "''web''" web webReplicaSet 0
      "[''rw'', ''z'', ''ro'']" "''RO''"] web_replicaSet w
  show ?thesis
    by (simp add: sp lm readOnly_examples del: containerVolumes.simps(2))
qed

section \<open>Counts, and the end of the run\<close>

lemma mainLoop_abort:
  "name \<in> set keys \<Longrightarrow> configs name = Some service \<Longrightarrow> replicaSet name service = Inl e \<Longrightarrow>
     \<exists>e'. snd (mainLoop configs keys written) = Some e'"
proof (induction keys arbitrary: written)
  case Nil
  then show ?case by simp
next
  case (Cons k keys)
  show ?case
  proof (cases "k = name")
    case True
    with Cons.prems show ?thesis by simp
  next
    case False
    with Cons.prems have "name \<in> set keys" by simp
    from Cons.IH [OF this Cons.prems(2,3)] show ?thesis
      by (simp split: option.splits sum.splits)
  qed
qed

lemma mainLoop_not_written:
  "configs name = Some service \<Longrightarrow> replicaSet name service = Inl e \<Longrightarrow>
     \<forall>x \<in> set written. fst x \<noteq> name @ ''-rs.json'' \<Longrightarrow>
     \<forall>x \<in> set (fst (mainLoop configs keys written)). fst x \<noteq> name @ ''-rs.json''"
proof (induction keys arbitrary: written)
  case Nil
  then show ?case by simp
next
  case (Cons k keys)
  show ?case
  proof (cases "configs k")
    case None
    with Cons.prems show ?thesis by simp
  next
    case (Some s)
    show ?thesis
    proof (cases "replicaSet k s")
      case (Inl e')
      with Some Cons.prems show ?thesis by simp
    next
      case (Inr rs)
      with Some Cons.prems have "k \<noteq> name" by auto
      with Cons.prems(3)
      have "\<forall>x \<in> set (written @ [(k @ ''-rs.json'', rs)]). fst x \<noteq> name @ ''-rs.json''"
        by auto
      from Cons.IH [OF Cons.prems(1,2) this] Some Inr show ?thesis by simp
    qed
  qed
qed

lemma mainLoop_stops:
  "configs name = Some service \<Longrightarrow> replicaSet name service = Inl e \<Longrightarrow>
     mainLoop configs (name # behind) written = (written, Some e)"
  by simp

lemma mainLoop_behind:
  "configs name = Some service \<Longrightarrow> replicaSet name service = Inl e \<Longrightarrow>
     mainLoop configs (before @ name # behind) written = mainLoop configs (before @ [name]) written"
proof (induction before arbitrary: written)
  case Nil
  then show ?case by simp
next
  case (Cons k before)
  show ?case
  proof (cases "configs k")
    case None
    then show ?thesis by simp
  next
    case (Some s)
    show ?thesis
    proof (cases "replicaSet k s")
      case (Inl e')
      with Some show ?thesis by simp
    next
      case (Inr rs)
      with Some Cons.IH [OF Cons.prems] show ?thesis by simp
    qed
  qed
qed

text \<open>
  Claim C7: in a replica set that is produced, the volume mounts, the volumes and the source
  volume entries are equally many, and so are the container ports and the source port
  entries. A service with a port entry that does not parse produces no replica set: the
  program ends with the invalid-port message. The run stops there: when the loop reaches this
  service it returns the files written so far and that error, whatever keys are behind it,
  so the outcome of a run does not depend on the keys behind the service; a run over keys
  that include the service ends with an error, and no file is written for the service.
\<close>

theorem C7_counts:
  "(replicaSet name service = Inr rs \<longrightarrow>
      (\<exists>c. Containers (PodSpec (Template (Spec rs))) = [c] \<and>
           length (VolumeMounts c) = length (PodVolumes (PodSpec (Template (Spec rs)))) \<and>
           length (PodVolumes (PodSpec (Template (Spec rs)))) = length (Volumes service) \<and>
           length (ContainerPorts c) = length (Ports service))) \<and>
   (port \<in> set (Ports service) \<and> ParseInt (portField port) = None \<longrightarrow>
      (\<exists>bad.
         replicaSet name service = Inl (InvalidPort bad name) \<and>
         (configs name = Some service \<longrightarrow>
            (\<forall>behind written.
               mainLoop configs (name # behind) written
                 = (written, Some (InvalidPort bad name))) \<and>
            (\<forall>before behind written.
               mainLoop configs (before @ name # behind) written
                 = mainLoop configs (before @ [name]) written))) \<and>
      (name \<in> set keys \<and> configs name = Some service \<longrightarrow>
         (\<exists>e. snd (mainLoop configs keys []) = Some e) \<and>
         (\<forall>x \<in> set (fst (mainLoop configs keys [])). fst x \<noteq> name @ ''-rs.json'')))"
proof -
  have counts: "\<exists>c. Containers (PodSpec (Template (Spec rs))) = [c] \<and>
           length (VolumeMounts c) = length (PodVolumes (PodSpec (Template (Spec rs)))) \<and>
           length (PodVolumes (PodSpec (Template (Spec rs)))) = length (Volumes service) \<and>
           length (ContainerPorts c) = length (Ports service)"
    if h: "replicaSet name service = Inr rs"
  proof -
    from replicaSet_volumes [OF h] obtain c
      where "Containers (PodSpec (Template (Spec rs))) = [c]"
        and "VolumeMounts c = map mountOf (Volumes service)"
        and "length (ContainerPorts c) = length (Ports service)"
        and "PodVolumes (PodSpec (Template (Spec rs))) = map volumeOf (Volumes service)"
      by blast
    then show ?thesis by simp
  qed
  have abort: "(\<exists>bad.
         replicaSet name service = Inl (InvalidPort bad name) \<and>
         (configs name = Some service \<longrightarrow>
            (\<forall>behind written.
               mainLoop configs (name # behind) written
                 = (written, Some (InvalidPort bad name))) \<and>
            (\<forall>before behind written.
               mainLoop configs (before @ name # behind) written
                 = mainLoop configs (before @ [name]) written))) \<and>
      (name \<in> set keys \<and> configs name = Some service \<longrightarrow>
         (\<exists>e. snd (mainLoop configs keys []) = Some e) \<and>
         (\<forall>x \<in> set (fst (mainLoop configs keys [])). fst x \<noteq> name @ ''-rs.json''))"
    if h: "port \<in> set (Ports service) \<and> ParseInt (portField port) = None"
  proof -
    from h have "\<not> (\<forall>p \<in> set (Ports service). ParseInt (portField p) \<noteq> None)" by blast
    then have "\<forall>out. containerPorts name (Ports service) [] \<noteq> Inr out"
      by (simp add: containerPorts_Inr_iff)
    then obtain e where e: "containerPorts name (Ports service) [] = Inl e"
      by (cases "containerPorts name (Ports service) []") auto
    from containerPorts_Inl [OF e] obtain bad where bad: "e = InvalidPort bad name" by blast
    from e bad have fail: "replicaSet name service = Inl (InvalidPort bad name)"
      by (simp add: replicaSet_ports_fail)
    have stop: "(\<forall>behind written.
               mainLoop configs (name # behind) written
                 = (written, Some (InvalidPort bad name))) \<and>
            (\<forall>before behind written.
               mainLoop configs (before @ name # behind) written
                 = mainLoop configs (before @ [name]) written)"
      if k: "configs name = Some service"
      using mainLoop_stops [where configs = configs and name = name, OF k fail]
        mainLoop_behind [where configs = configs and name = name, OF k fail]
      by blast
    have run: "(\<exists>e. snd (mainLoop configs keys []) = Some e) \<and>
          (\<forall>x \<in> set (fst (mainLoop configs keys [])). fst x \<noteq> name @ ''-rs.json'')"
      if k: "name \<in> set keys \<and> configs name = Some service"
    proof -
      from k fail have "\<exists>e'. snd (mainLoop configs keys []) = Some e'"
        using mainLoop_abort [of name keys configs service _ "[]"] by blast
      moreover from k fail
      have "\<forall>x \<in> set (fst (mainLoop configs keys [])). fst x \<noteq> name @ ''-rs.json''"
        using mainLoop_not_written [of configs name service _ "[]" keys] by simp
      ultimately show ?thesis by blast
    qed
    from fail stop run show ?thesis by blast
  qed
  from counts abort show ?thesis by blast
qed

text \<open>
  Claim C7 at the service \<^verbatim>\<open>store\<close>, and at a run over the services \<^verbatim>\<open>store\<close>, \<^verbatim>\<open>api\<close>
  (whose port is not a number) and \<^verbatim>\<open>web\<close>.
\<close>

theorem C7_counts_witness:
  "replicaSet ''store'' store = Inr storeReplicaSet \<and>
   (\<exists>c. Containers (PodSpec (Template (Spec storeReplicaSet))) = [c] \<and>
        length (VolumeMounts c) = 2 \<and>
        length (PodVolumes (PodSpec (Template (Spec storeReplicaSet)))) = 2 \<and>
        length (Volumes store) = 2 \<and>
        length (ContainerPorts c) = 2 \<and> length (Ports store) = 2) \<and>
   ''notanumber'' \<in> set (Ports api) \<and> ParseInt (portField ''notanumber'') = None \<and>
   ''api'' \<in> set [''store'', ''api'', ''web''] \<and>
   [''store'' \<mapsto> store, ''api'' \<mapsto> api, ''web'' \<mapsto> web] ''api'' = Some api \<and>
   (\<exists>bad. replicaSet ''api'' api = Inl (InvalidPort bad ''api'') \<and>
      mainLoop [''store'' \<mapsto> store, ''api'' \<mapsto> api, ''web'' \<mapsto> web] [''api'', ''web''] []
        = ([], Some (InvalidPort bad ''api''))) \<and>
   mainLoop [''store'' \<mapsto> store, ''api'' \<mapsto> api, ''web'' \<mapsto> web] [''store'', ''api'', ''web''] []
     = mainLoop [''store'' \<mapsto> store, ''api'' \<mapsto> api, ''web'' \<mapsto> web] [''store'', ''api''] [] \<and>
   (\<exists>e. snd (mainLoop [''store'' \<mapsto> store, ''api'' \<mapsto> api, ''web'' \<mapsto> web]
                [''store'', ''api'', ''web''] []) = Some e) \<and>
   mainLoop [''store'' \<mapsto> store, ''api'' \<mapsto> api, ''web'' \<mapsto> web] [''store'', ''api'', ''web''] []
     = ([(''store-rs.json'', storeReplicaSet)], Some (InvalidPort ''notanumber'' ''api''))"
proof -
  let ?configs = "[''store'' \<mapsto> store, ''api'' \<mapsto> api, ''web'' \<mapsto> web]"
  have w: "length (Volumes store) = 2" "length (Ports store) = 2"
    by (simp_all add: store_def)
  have a: "''notanumber'' \<in> set (Ports api)" by (simp add: api_def)
  have p: "ParseInt (portField ''notanumber'') = None" by code_simp
  have cfg: "?configs ''api'' = Some api" by simp
  have keys: "''api'' \<in> set [''store'', ''api'', ''web'']" by simp
  have run: "mainLoop ?configs [''store'', ''api'', ''web''] []
     = ([(''store-rs.json'', storeReplicaSet)], Some (InvalidPort ''notanumber'' ''api''))"
    by (simp add: store_replicaSet api_replicaSet)
  from C7_counts [of "''store''" store storeReplicaSet "''9187''" ?configs "[''store'']",
      THEN conjunct1] store_replicaSet w
  have ok: "\<exists>c. Containers (PodSpec (Template (Spec storeReplicaSet))) = [c] \<and>
        length (VolumeMounts c) = 2 \<and>
        length (PodVolumes (PodSpec (Template (Spec storeReplicaSet)))) = 2 \<and>
        length (Volumes store) = 2 \<and>
        length (ContainerPorts c) = 2 \<and> length (Ports store) = 2"
    by auto
  from C7_counts [of "''api''" api storeReplicaSet "''notanumber''" ?configs
      "[''store'', ''api'', ''web'']", THEN conjunct2] a p
  have fails: "(\<exists>bad.
         replicaSet ''api'' api = Inl (InvalidPort bad ''api'') \<and>
         (?configs ''api'' = Some api \<longrightarrow>
            (\<forall>behind written.
               mainLoop ?configs (''api'' # behind) written
                 = (written, Some (InvalidPort bad ''api''))) \<and>
            (\<forall>before behind written.
               mainLoop ?configs (before @ ''api'' # behind) written
                 = mainLoop ?configs (before @ [''api'']) written))) \<and>
      (''api'' \<in> set [''store'', ''api'', ''web''] \<and> ?configs ''api'' = Some api \<longrightarrow>
         (\<exists>e. snd (mainLoop ?configs [''store'', ''api'', ''web''] []) = Some e) \<and>
         (\<forall>x \<in> set (fst (mainLoop ?configs [''store'', ''api'', ''web''] [])).
             fst x \<noteq> ''api'' @ ''-rs.json''))"
    by blast
  with cfg keys obtain bad
    where bad: "replicaSet ''api'' api = Inl (InvalidPort bad ''api'')"
      and head: "\<forall>behind written.
               mainLoop ?configs (''api'' # behind) written
                 = (written, Some (InvalidPort bad ''api''))"
      and behind: "\<forall>before behind written.
               mainLoop ?configs (before @ ''api'' # behind) written
                 = mainLoop ?configs (before @ [''api'']) written"
      and err: "\<exists>e. snd (mainLoop ?configs [''store'', ''api'', ''web''] []) = Some e"
    by blast
  from head have h1: "mainLoop ?configs [''api'', ''web''] [] = ([], Some (InvalidPort bad ''api''))"
    by blast
  from behind [THEN spec, of "[''store'']", THEN spec, of "[''web'']", THEN spec, of "[]"]
  have h2: "mainLoop ?configs [''store'', ''api'', ''web''] [] = mainLoop ?configs [''store'', ''api''] []"
    by simp
  from bad h1 have ex: "\<exists>bad. replicaSet ''api'' api = Inl (InvalidPort bad ''api'') \<and>
      mainLoop ?configs [''api'', ''web''] [] = ([], Some (InvalidPort bad ''api''))"
    by blast
  show ?thesis
    by (intro conjI) (rule store_replicaSet ok a p keys cfg ex h2 err run)+
qed

section \<open>Volume entries without a colon\<close>

text \<open>
  Claim C8 asks for a fatal invalid-volume error when a volume entry has fewer than two
  colon-separated parts. Line 140 reads \<^verbatim>\<open>parts[1]\<close> without a test, unlike the port and the
  environment loops, which test for the separator first: for the volume \<^verbatim>\<open>/var/lib/mysql\<close>
  the program panics with an index out of range, 1 not being below the length 1.
\<close>

theorem C8_volume_without_colon_panics:
  "replicaSet ''db''
     \<lparr>Image = ''mysql'', Command = [], Ports = [], Environment = [],
      Volumes = [''/var/lib/mysql''], Restart = []\<rparr>
   = Inl (IndexOutOfRange 1 1)"
  by (simp add: replicaSet_eq containerVolumes_without del: containerVolumes.simps)

end
